theory Spec2Isabelle
  imports Complex_Main
begin

text \<open>
  A model of the interactive equalizer module (\<^verbatim>\<open>InteractiveEQ\<close>): draggable handles on a
  frequency-response chart that set the frequency, gain and Q of parametric filters. The
  module is event-driven JavaScript over the DOM and D3; here each handler is a function
  from the state before the event to the state after it. The state holds the module's
  variables and what the module writes in its host: the filter input fields, the band count,
  the handles, the registered listeners. What the host and the libraries supply (scales,
  callbacks, the reference curves) is a parameter, the record \<open>env\<close>. A handler that can
  throw returns an \<open>outcome\<close>, which says so and keeps the state the throw leaves behind.
  Styling, tooltips, the live preview and the scroll-lock workaround are not modelled.
\<close>

section \<open>JavaScript numbers\<close>

text \<open>
  The module computes with JavaScript numbers. Finite values are modelled by the reals they
  denote (the rounding error of double arithmetic is not modelled); the three special values
  are kept, because \<^verbatim>\<open>x / 0\<close>, \<^verbatim>\<open>Infinity * 0\<close> and the clamp idiom
  \<^verbatim>\<open>Math.max(lo, Math.min(hi, x))\<close> behave on them in a way the reals do not show.
  A zero is the positive zero: the only divisor the module can make zero is a difference
  \<^verbatim>\<open>p2[0] - p1[0]\<close> of two equal finite numbers, which is \<^verbatim>\<open>+0\<close>.
\<close>

datatype jsnum = Fin real | PInf | NInf | NaN

fun jneg :: "jsnum \<Rightarrow> jsnum" where
  "jneg (Fin a) = Fin (- a)"
| "jneg PInf = NInf"
| "jneg NInf = PInf"
| "jneg NaN = NaN"

fun jadd :: "jsnum \<Rightarrow> jsnum \<Rightarrow> jsnum" where
  "jadd NaN _ = NaN"
| "jadd _ NaN = NaN"
| "jadd (Fin a) (Fin b) = Fin (a + b)"
| "jadd PInf NInf = NaN"
| "jadd NInf PInf = NaN"
| "jadd PInf _ = PInf"
| "jadd _ PInf = PInf"
| "jadd NInf _ = NInf"
| "jadd _ NInf = NInf"

definition jsub :: "jsnum \<Rightarrow> jsnum \<Rightarrow> jsnum" where
  "jsub a b = jadd a (jneg b)"

text \<open>The sign of a number, for the products and quotients that involve an infinity.\<close>

fun jsign :: "jsnum \<Rightarrow> int" where
  "jsign (Fin a) = (if a < 0 then - 1 else if a = 0 then 0 else 1)"
| "jsign PInf = 1"
| "jsign NInf = - 1"
| "jsign NaN = 0"

definition jinf :: "int \<Rightarrow> jsnum" where
  "jinf s = (if s < 0 then NInf else if s = 0 then NaN else PInf)"

fun jmul :: "jsnum \<Rightarrow> jsnum \<Rightarrow> jsnum" where
  "jmul NaN _ = NaN"
| "jmul _ NaN = NaN"
| "jmul (Fin a) (Fin b) = Fin (a * b)"
| "jmul a b = jinf (jsign a * jsign b)"

fun jdiv :: "jsnum \<Rightarrow> jsnum \<Rightarrow> jsnum" where
  "jdiv NaN _ = NaN"
| "jdiv _ NaN = NaN"
| "jdiv (Fin a) (Fin b) = (if b = 0 then jinf (jsign (Fin a)) else Fin (a / b))"
| "jdiv (Fin a) _ = Fin 0"
| "jdiv a (Fin b) = jinf (jsign a * (if b < 0 then - 1 else 1))"
| "jdiv _ _ = NaN"

text \<open>\<^verbatim>\<open>Math.round\<close>: the nearest integer, a tie going up, which is \<^term>\<open>round\<close> of HOL.\<close>

fun jround :: "jsnum \<Rightarrow> jsnum" where
  "jround (Fin a) = Fin (of_int (round a))"
| "jround x = x"

text \<open>\<^verbatim>\<open>Math.min\<close> and \<^verbatim>\<open>Math.max\<close> of two arguments: \<^verbatim>\<open>NaN\<close> as soon as one is.\<close>

fun jmin :: "jsnum \<Rightarrow> jsnum \<Rightarrow> jsnum" where
  "jmin NaN _ = NaN"
| "jmin _ NaN = NaN"
| "jmin NInf _ = NInf"
| "jmin _ NInf = NInf"
| "jmin PInf b = b"
| "jmin a PInf = a"
| "jmin (Fin a) (Fin b) = Fin (min a b)"

fun jmax :: "jsnum \<Rightarrow> jsnum \<Rightarrow> jsnum" where
  "jmax NaN _ = NaN"
| "jmax _ NaN = NaN"
| "jmax PInf _ = PInf"
| "jmax _ PInf = PInf"
| "jmax NInf b = b"
| "jmax a NInf = a"
| "jmax (Fin a) (Fin b) = Fin (max a b)"

text \<open>\<^verbatim>\<open>a >= b\<close>: false as soon as one side is \<^verbatim>\<open>NaN\<close>.\<close>

fun jge :: "jsnum \<Rightarrow> jsnum \<Rightarrow> bool" where
  "jge NaN _ = False"
| "jge _ NaN = False"
| "jge (Fin a) (Fin b) = (a \<ge> b)"
| "jge PInf _ = True"
| "jge _ NInf = True"
| "jge _ _ = False"

text \<open>
  \<^verbatim>\<open>x || d\<close> on a number: the default \<open>d\<close> when \<open>x\<close> is falsy (\<^verbatim>\<open>NaN\<close> or zero; an
  absent property reads as \<^verbatim>\<open>undefined\<close>, which every numeric use turns into \<^verbatim>\<open>NaN\<close>).
\<close>

definition js_or :: "jsnum \<Rightarrow> jsnum \<Rightarrow> jsnum" where
  "js_or x d = (if x = NaN \<or> x = Fin 0 then d else x)"

section \<open>Arrays\<close>

datatype error = TypeError

text \<open>\<^verbatim>\<open>xs[i]\<close>: \<^verbatim>\<open>undefined\<close> (here \<open>None\<close>) outside the array, also at a negative index.\<close>

definition js_nth :: "'a list \<Rightarrow> int \<Rightarrow> 'a option" where
  "js_nth xs i = (if 0 \<le> i \<and> i < int (length xs) then Some (xs ! nat i) else None)"

text \<open>\<^verbatim>\<open>xs.findIndex(p)\<close>: the first index whose element satisfies \<open>p\<close>, or \<open>-1\<close>.\<close>

fun findIndex :: "('a \<Rightarrow> bool) \<Rightarrow> 'a list \<Rightarrow> int" where
  "findIndex p [] = - 1"
| "findIndex p (x # xs) =
     (if p x then 0 else (let r = findIndex p xs in if r < 0 then - 1 else r + 1))"

section \<open>Phone objects and curve sampling\<close>

type_synonym sample = "real \<times> real"

text \<open>
  What a curve slot can hold: a falsy value (\<^verbatim>\<open>undefined\<close>, \<^verbatim>\<open>null\<close>), an array of
  \<^verbatim>\<open>[freq, level]\<close> pairs, or a truthy value that is not an array.
\<close>

datatype curveData = Absent | Samples "sample list" | NotArray

text \<open>
  An element of \<^verbatim>\<open>activeCurves\<close>: falsy, an array of samples itself, or a curve object,
  given by what its property \<^verbatim>\<open>l\<close> holds.
\<close>

datatype curve = NoCurveObj | CurveArray "sample list" | CurveObject curveData

record phoneObj =
  isPrefBounds :: bool
  fullName :: string
  activeCurves :: "curve list option"
  rawChannels :: "curveData list option"

text \<open>\<^verbatim>\<open>phoneObj.activeCurves && phoneObj.activeCurves[0]\<close>, then \<^verbatim>\<open>curve.l || curve\<close>.\<close>

definition activeCurveData :: "phoneObj \<Rightarrow> curveData" where
  "activeCurveData p =
     (case activeCurves p of
        None \<Rightarrow> Absent
      | Some [] \<Rightarrow> Absent
      | Some (NoCurveObj # _) \<Rightarrow> Absent
      | Some (CurveArray xs # _) \<Rightarrow> Samples xs
      | Some (CurveObject Absent # _) \<Rightarrow> NotArray
      | Some (CurveObject l # _) \<Rightarrow> l)"

text \<open>\<^verbatim>\<open>phoneObj.rawChannels && phoneObj.rawChannels[0]\<close>.\<close>

definition rawChannelData :: "phoneObj \<Rightarrow> curveData" where
  "rawChannelData p =
     (case rawChannels p of
        None \<Rightarrow> Absent
      | Some [] \<Rightarrow> Absent
      | Some (c # _) \<Rightarrow> c)"

text \<open>
  \<^verbatim>\<open>samplePhoneCurveAt(phoneObj, freq)\<close>. The two callbacks it uses are parameters:
  \<open>getOffset\<close> is \<^verbatim>\<open>callbacks.getOffset\<close> and \<open>bfn\<close> is \<^verbatim>\<open>callbacks.getBaseline().fn\<close>.
  The result is \<open>Inl TypeError\<close> where the source reads a property of \<^verbatim>\<open>undefined\<close>,
  \<open>Inr None\<close> for \<^verbatim>\<open>null\<close> and \<open>Inr (Some y)\<close> for a number.
\<close>

definition interpolate :: "sample \<Rightarrow> sample \<Rightarrow> jsnum \<Rightarrow> real \<Rightarrow> jsnum" where
  "interpolate p1 p2 freq offset =
     (let t = jdiv (jsub freq (Fin (fst p1))) (Fin (fst p2 - fst p1))
      in jadd (jadd (Fin (snd p1)) (jmul t (Fin (snd p2 - snd p1)))) (Fin offset))"

definition samplePhoneCurveAt ::
  "(sample list \<Rightarrow> sample list) \<Rightarrow> (phoneObj \<Rightarrow> real) \<Rightarrow> phoneObj option \<Rightarrow> jsnum
     \<Rightarrow> error + jsnum option"
where
  "samplePhoneCurveAt bfn getOffset phone freq =
     (case phone of
        None \<Rightarrow> Inr None
      | Some p \<Rightarrow>
          (let offset = getOffset p;
               curveData = (case activeCurveData p of Absent \<Rightarrow> rawChannelData p | c \<Rightarrow> c)
           in case curveData of
                Absent \<Rightarrow> Inr None
              | NotArray \<Rightarrow> Inr None
              | Samples xs \<Rightarrow>
                  (let data = bfn xs;
                       found = findIndex (\<lambda>d. jge (Fin (fst d)) freq) data;
                       idx = (if found < 0 then int (length data) - 1 else found)
                   in if idx = 0 then
                        (case js_nth data 0 of
                           None \<Rightarrow> Inl TypeError
                         | Some d \<Rightarrow> Inr (Some (jadd (Fin (snd d)) (Fin offset))))
                      else
                        (case (js_nth data (idx - 1), js_nth data idx) of
                           (Some p1, Some p2) \<Rightarrow> Inr (Some (interpolate p1 p2 freq offset))
                         | _ \<Rightarrow> Inl TypeError))))"

section \<open>Filters, input fields and the injected dependencies\<close>

text \<open>
  A filter object of the host's filter list, as the module reads it: the properties
  \<^verbatim>\<open>disabled\<close>, \<^verbatim>\<open>type\<close>, \<^verbatim>\<open>freq\<close>, \<^verbatim>\<open>q\<close> and \<^verbatim>\<open>gain\<close>. A numeric property is a
  finite number or absent (\<open>None\<close>: \<^verbatim>\<open>undefined\<close> or \<^verbatim>\<open>NaN\<close>, both falsy).
\<close>

record filterObj =
  f_disabled :: bool
  f_type :: string
  f_freq :: "real option"
  f_q :: "real option"
  f_gain :: "real option"

text \<open>\<^verbatim>\<open>x || d\<close> on a filter property: the default when it is absent or zero.\<close>

definition or_default :: "real option \<Rightarrow> real \<Rightarrow> real" where
  "or_default x d = (case x of None \<Rightarrow> d | Some v \<Rightarrow> if v = 0 then d else v)"

text \<open>\<^verbatim>\<open>f.freq && f.freq > 0\<close>, the test of \<^verbatim>\<open>updateEQHandles\<close>.\<close>

definition freq_assigned :: "filterObj \<Rightarrow> bool" where
  "freq_assigned f = (case f_freq f of None \<Rightarrow> False | Some v \<Rightarrow> v \<noteq> 0 \<and> v > 0)"

text \<open>\<^verbatim>\<open>!f.freq || f.freq === 0\<close>, the test of \<^verbatim>\<open>handleGraphClick\<close>.\<close>

definition freq_unassigned :: "filterObj \<Rightarrow> bool" where
  "freq_unassigned f = (case f_freq f of None \<Rightarrow> True | Some v \<Rightarrow> v = 0)"

text \<open>
  \<^verbatim>\<open>callbacks.getFilterInputs()\<close>: five arrays of input elements, indexed by filter. An
  element is modelled by what it holds: \<^verbatim>\<open>checked\<close> of a checkbox, \<^verbatim>\<open>value\<close> of the type
  select, and for a numeric field the number its \<^verbatim>\<open>value\<close> parses to (\<^verbatim>\<open>NaN\<close> when it
  does not parse). The arrays may differ in length, as in the source.
\<close>

record filterInputs =
  fi_enabled :: "bool list"
  fi_type :: "string list"
  fi_freq :: "jsnum list"
  fi_gain :: "jsnum list"
  fi_q :: "jsnum list"

text \<open>
  \<^verbatim>\<open>arr[i].value = v\<close>: the array with the value of element \<open>i\<close> replaced, or \<open>None\<close> where
  \<^verbatim>\<open>arr[i]\<close> is \<^verbatim>\<open>undefined\<close> and the assignment throws a \<^verbatim>\<open>TypeError\<close>.
\<close>

definition set_at :: "'a list \<Rightarrow> nat \<Rightarrow> 'a \<Rightarrow> 'a list option" where
  "set_at xs i v = (if i < length xs then Some (xs[i := v]) else None)"

text \<open>
  The dependencies injected by \<^verbatim>\<open>init\<close>, which the module only calls: the chart's scales
  (\<^verbatim>\<open>scales.x\<close>, \<^verbatim>\<open>scales.x.invert\<close>, \<^verbatim>\<open>scales.y.invert\<close>, \<^verbatim>\<open>scales.y.domain()\<close>), the
  map from client coordinates to chart coordinates (\<^verbatim>\<open>matrixTransform\<close> by the inverse
  screen matrix), the plot geometry, what the callbacks return, and the option values of the
  phone select. \<open>getFilters\<close> reads the host's filter list off the input fields, and
  \<open>updateFilterElements n\<close> is what \<^verbatim>\<open>setBands(n); updateFilterElements()\<close> makes of them.
\<close>

record env =
  scales_x :: "real \<Rightarrow> real"
  scales_x_invert :: "real \<Rightarrow> real"
  scales_y_invert :: "real \<Rightarrow> real"
  scales_y_domain :: "real \<times> real"
  toSvgPoint :: "real \<times> real \<Rightarrow> real \<times> real"
  pad_l :: real
  pad_t :: real
  geometry_W :: real
  geometry_H :: real
  getActivePhones :: "phoneObj list"
  getOffset :: "phoneObj \<Rightarrow> real"
  baseline_fn :: "sample list \<Rightarrow> sample list"
  getFilters :: "filterInputs \<Rightarrow> filterObj list"
  getBandsMax :: nat
  updateFilterElements :: "nat \<Rightarrow> filterInputs \<Rightarrow> filterInputs"
  selectOptions :: "string list"

section \<open>Module state\<close>

text \<open>
  A rendered handle (\<^verbatim>\<open>g.eq-handle\<close>): its key and bound datum, the classes \<^verbatim>\<open>disabled\<close>
  and \<^verbatim>\<open>whisker-selected\<close>, and the attributes derived from Q: the whisker's span
  (\<^verbatim>\<open>x1\<close>, \<^verbatim>\<open>x2\<close>, also the \<^verbatim>\<open>cx\<close> of the two end balls) and the radius of the outer
  ring, \<open>None\<close> while not yet set.
\<close>

record handle =
  filterIndex :: nat
  datum :: filterObj
  cls_disabled :: bool
  whisker_selected :: bool
  whisker_span :: "(real \<times> real) option"
  outer_r :: "real option"

datatype listener = preventScrollOnHandles | handleTouchEnd

datatype handler = GraphClick | GraphTouchStart | GraphTouchEnd

text \<open>
  The module's variables, the host state it writes (the input fields, the band count, the
  phone select's value, the number of \<^verbatim>\<open>callbacks.applyEQ()\<close> calls so far), the handles
  in the document, and the listeners registered on the SVG element, on the document and,
  through \<^verbatim>\<open>selection.on\<close>, on the interaction rectangle. A pending animation frame is the
  closure it will run: the dragged filter's index and the pointer position of the move that
  scheduled it.
\<close>

record state =
  initialized :: bool
  enabled :: bool
  isDragging :: bool
  wasDragged :: bool
  justDeletedFilter :: bool
  pendingFrame :: "(nat \<times> real \<times> real) option"
  selectValue :: string
  inputs :: filterInputs
  bands :: nat
  applyEQ_calls :: nat
  eqHandles :: "handle list"
  svgEl_listeners :: "(string \<times> listener \<times> bool) list"
  document_listeners :: "(string \<times> listener \<times> bool) list"
  interactRect_on :: "(string \<times> handler) list"

text \<open>
  How a call ends: it returns, or it throws; either way the state it leaves is given.
\<close>

datatype 's outcome = Returns 's | Throws error 's

fun final :: "'s outcome \<Rightarrow> 's" where
  "final (Returns s) = s"
| "final (Throws e s) = s"

fun returns :: "'s outcome \<Rightarrow> bool" where
  "returns (Returns s) = True"
| "returns (Throws e s) = False"

section \<open>Sampling the selected phone\<close>

text \<open>\<^verbatim>\<open>getEQPhoneObj()\<close>; \<open>fullName\<close> is \<^verbatim>\<open>p.brand.name + " " + p.dispName\<close>.\<close>

definition getEQPhoneObj :: "env \<Rightarrow> state \<Rightarrow> phoneObj option" where
  "getEQPhoneObj env s =
     (if selectValue s = [] then None
      else find (\<lambda>p. \<not> isPrefBounds p \<and> fullName p = selectValue s) (getActivePhones env))"

text \<open>The sampler on the selected phone, with the host's baseline and offset.\<close>

definition curveAt :: "env \<Rightarrow> state \<Rightarrow> real \<Rightarrow> error + jsnum option" where
  "curveAt env s f =
     samplePhoneCurveAt (baseline_fn env) (getOffset env) (getEQPhoneObj env s) (Fin f)"

text \<open>
  From client coordinates to the domain, as \<^verbatim>\<open>onMove\<close>'s frame and \<^verbatim>\<open>handleGraphClick\<close>
  both do: the frequency rounded to an integer and clamped to \<open>[20, 20000]\<close>, and the level
  \<^verbatim>\<open>targetY\<close> under the pointer.
\<close>

definition toDomain :: "env \<Rightarrow> real \<times> real \<Rightarrow> real \<times> real" where
  "toDomain env client =
     (let svgPt = toSvgPoint env client;
          newFreq = max 20 (min 20000 (of_int (round (scales_x_invert env (fst svgPt)))));
          targetY = scales_y_invert env (snd svgPt)
      in (newFreq, targetY))"

text \<open>
  The gain computed from the pointer's level \<open>targetY\<close> and the sampled curve level, as
  both \<^verbatim>\<open>onMove\<close>'s frame and \<^verbatim>\<open>handleGraphClick\<close> do: relative to the curve, or to the
  centre of the visible gain axis when the sampler returned \<^verbatim>\<open>null\<close>; rounded to a tenth;
  clamped by \<^verbatim>\<open>Math.max(-40, Math.min(40, gain))\<close>.
\<close>

definition gainFor :: "env \<Rightarrow> real \<Rightarrow> jsnum option \<Rightarrow> jsnum" where
  "gainFor env targetY curveY =
     (let newGain =
            (case curveY of
               Some c \<Rightarrow> jsub (Fin targetY) c
             | None \<Rightarrow>
                 (let yd = scales_y_domain env; center = (fst yd + snd yd) / 2
                  in Fin (targetY - center)));
          rounded = jdiv (jround (jmul newGain (Fin 10))) (Fin 10)
      in jmax (Fin (- 40)) (jmin (Fin 40) rounded))"

section \<open>Dragging a handle\<close>

text \<open>
  The variables \<^verbatim>\<open>startDrag\<close> closes over: the filter's index, where the pointer went
  down, and whether the gesture has become a drag.
\<close>

record drag =
  drag_filterIndex :: nat
  startX :: real
  startY :: real
  moved :: bool

definition hypot :: "real \<Rightarrow> real \<Rightarrow> real" where
  "hypot a b = sqrt (a\<^sup>2 + b\<^sup>2)"

text \<open>\<^verbatim>\<open>startDrag\<close>: nothing when the module is disabled, else a new gesture.\<close>

definition startDrag :: "nat \<Rightarrow> real \<Rightarrow> real \<Rightarrow> state \<Rightarrow> drag option \<times> state" where
  "startDrag idx clientX clientY s =
     (if \<not> enabled s then (None, s)
      else (Some \<lparr>drag_filterIndex = idx, startX = clientX, startY = clientY, moved = False\<rparr>,
            s\<lparr>isDragging := True, wasDragged := False\<rparr>))"

text \<open>\<^verbatim>\<open>onMove\<close>, up to the scheduling of the animation frame.\<close>

definition onMove :: "real \<Rightarrow> real \<Rightarrow> drag \<times> state \<Rightarrow> drag \<times> state" where
  "onMove cx cy gs =
     (case gs of (g, s) \<Rightarrow>
        (let dist = hypot (cx - startX g) (cy - startY g)
         in if \<not> moved g \<and> dist < 5 then (g, s)
            else
              (let g' = g\<lparr>moved := True\<rparr>; s' = s\<lparr>wasDragged := True\<rparr>
               in if pendingFrame s' \<noteq> None then (g', s')
                  else (g', s'\<lparr>pendingFrame := Some (drag_filterIndex g, cx, cy)\<rparr>))))"

text \<open>
  The animation-frame callback scheduled by \<^verbatim>\<open>onMove\<close>, run on the closure
  \<open>(filterIndex, cx, cy)\<close>. A throw of the sampler ends it before any field is written.
  Each of the two writes is skipped where the array has no element for the index
  (\<^verbatim>\<open>if (filterInputs.freq[filterIndex])\<close>). The handle's \<^verbatim>\<open>transform\<close> and the preview,
  which follow the writes, are not part of the state.
\<close>

definition dragFrame :: "env \<Rightarrow> nat \<times> real \<times> real \<Rightarrow> state \<Rightarrow> state outcome" where
  "dragFrame env fr s0 =
     (case fr of (idx, cx, cy) \<Rightarrow>
        (let s = s0\<lparr>pendingFrame := None\<rparr>;
             newFreq = fst (toDomain env (cx, cy));
             targetY = snd (toDomain env (cx, cy))
         in case curveAt env s newFreq of
              Inl e \<Rightarrow> Throws e s
            | Inr curveY \<Rightarrow>
                (let newGain = gainFor env targetY curveY;
                     fi = inputs s;
                     fi1 = (case set_at (fi_freq fi) idx (Fin newFreq) of
                              None \<Rightarrow> fi | Some fs \<Rightarrow> fi\<lparr>fi_freq := fs\<rparr>);
                     fi2 = (case set_at (fi_gain fi1) idx newGain of
                              None \<Rightarrow> fi1 | Some gs \<Rightarrow> fi1\<lparr>fi_gain := gs\<rparr>)
                 in Returns (s\<lparr>inputs := fi2\<rparr>))))"

text \<open>
  \<^verbatim>\<open>onUp\<close>: the commit callback runs if and only if the gesture became a drag. (The
  timer that resets \<^verbatim>\<open>isDragging\<close> 120 ms later is a later event.)
\<close>

definition onUp :: "drag \<times> state \<Rightarrow> state" where
  "onUp gs =
     (case gs of (g, s) \<Rightarrow>
        (if moved g then s\<lparr>applyEQ_calls := applyEQ_calls s + 1\<rparr> else s))"

text \<open>
  What reaches a gesture between pointer-down and pointer-up: pointer moves, and the browser
  running the pending animation frame, if there is one.
\<close>

datatype drag_event = Move real real | Frame

fun drag_step :: "env \<Rightarrow> drag \<times> state \<Rightarrow> drag_event \<Rightarrow> drag \<times> state" where
  "drag_step env (g, s) (Move cx cy) = onMove cx cy (g, s)"
| "drag_step env (g, s) Frame =
     (case pendingFrame s of
        None \<Rightarrow> (g, s)
      | Some fr \<Rightarrow> (g, final (dragFrame env fr s)))"

text \<open>A whole gesture: pointer-down on handle \<open>idx\<close>, the events, pointer-up.\<close>

definition gesture ::
  "env \<Rightarrow> nat \<Rightarrow> real \<Rightarrow> real \<Rightarrow> drag_event list \<Rightarrow> state \<Rightarrow> state"
where
  "gesture env idx clientX clientY evs s =
     (case startDrag idx clientX clientY s of
        (None, s') \<Rightarrow> s'
      | (Some g, s') \<Rightarrow> onUp (foldl (drag_step env) (g, s') evs))"

text \<open>A move that stays strictly within 5 pixels of \<open>(x0, y0)\<close>; a frame is no move.\<close>

fun within_threshold :: "real \<Rightarrow> real \<Rightarrow> drag_event \<Rightarrow> bool" where
  "within_threshold x0 y0 (Move cx cy) = (hypot (cx - x0) (cy - y0) < 5)"
| "within_threshold x0 y0 Frame = True"

section \<open>Filter type and Q from the handle\<close>

text \<open>\<^verbatim>\<open>types.indexOf(v)\<close>.\<close>

definition indexOf :: "'a list \<Rightarrow> 'a \<Rightarrow> int" where
  "indexOf xs v = findIndex (\<lambda>x. x = v) xs"

definition types :: "string list" where
  "types = [''PK'', ''LSQ'', ''HSQ'']"

text \<open>
  \<^verbatim>\<open>cycleFilterType(d)\<close> for \<^verbatim>\<open>d.filterIndex = idx\<close>. \<^verbatim>\<open>cur + 1\<close> is never negative, so
  JavaScript's \<^verbatim>\<open>%\<close> is \<open>mod\<close> here.
\<close>

definition cycleFilterType :: "nat \<Rightarrow> state \<Rightarrow> state outcome" where
  "cycleFilterType idx s =
     (if \<not> enabled s then Returns s
      else
        (case js_nth (fi_type (inputs s)) (int idx) of
           None \<Rightarrow> Throws TypeError s
         | Some v \<Rightarrow>
             (let cur = indexOf types v;
                  next_type = types ! nat ((cur + 1) mod 3)
              in Returns (s\<lparr>inputs := (inputs s)\<lparr>fi_type := (fi_type (inputs s))[idx := next_type]\<rparr>,
                            applyEQ_calls := applyEQ_calls s + 1\<rparr>))))"

text \<open>
  The \<^verbatim>\<open>wheel\<close> handler of a handle, for \<^verbatim>\<open>d.filterIndex = idx\<close>, \<^verbatim>\<open>d3.event.shiftKey\<close> and
  \<^verbatim>\<open>d3.event.deltaY\<close>.
\<close>

definition wheel :: "nat \<Rightarrow> bool \<Rightarrow> real \<Rightarrow> state \<Rightarrow> state outcome" where
  "wheel idx shiftKey deltaY s =
     (if \<not> enabled s then Returns s
      else
        (case js_nth (fi_q (inputs s)) (int idx) of
           None \<Rightarrow> Throws TypeError s
         | Some v \<Rightarrow>
             (let q = js_or v (Fin 1);
                  step = (if shiftKey then 0.01 else 0.1);
                  precision = (if shiftKey then 100 else 10);
                  q1 = jadd q (Fin (if deltaY < 0 then step else - step));
                  q2 = jmax (Fin 0.1)
                         (jmin (Fin 10) (jdiv (jround (jmul q1 (Fin precision))) (Fin precision)))
              in Returns (s\<lparr>inputs := (inputs s)\<lparr>fi_q := (fi_q (inputs s))[idx := q2]\<rparr>,
                            applyEQ_calls := applyEQ_calls s + 1\<rparr>))))"

section \<open>Bandwidth and the whiskers\<close>

text \<open>\<^verbatim>\<open>qToRadius(q)\<close>.\<close>

definition qToRadius :: "real option \<Rightarrow> real" where
  "qToRadius q =
     (let minR = 12; maxR = 28;
          logQ = log 10 (max 0.1 (min 10 (or_default q 1)));
          ratio = (logQ + 1) / 2
      in maxR - ratio * (maxR - minR))"

text \<open>
  The band edges of a filter at \<open>freq\<close> with quality \<open>q\<close>, as \<^verbatim>\<open>whiskerDrag\<close> and
  \<^verbatim>\<open>updateEQHandles\<close> both compute them:
  \<^verbatim>\<open>bwOctaves = 2 * Math.asinh(1 / (2 * q)) / Math.LN2\<close>,
  \<^verbatim>\<open>fLow = freq / Math.pow(2, bwOctaves / 2)\<close>, \<^verbatim>\<open>fHigh = freq * Math.pow(2, bwOctaves / 2)\<close>.
\<close>

definition edgesFromQ :: "real \<Rightarrow> real \<Rightarrow> real \<times> real" where
  "edgesFromQ freq q =
     (let bwOctaves = 2 * arsinh (1 / (2 * q)) / ln 2
      in (freq / 2 powr (bwOctaves / 2), freq * 2 powr (bwOctaves / 2)))"

datatype side = SideLeft | SideRight

text \<open>
  The two edges \<^verbatim>\<open>whiskerDrag\<close> reconstructs from the dragged one: \<open>(fLow, fHigh)\<close>.
\<close>

definition dragEdges :: "real \<Rightarrow> real \<Rightarrow> side \<Rightarrow> real \<times> real" where
  "dragEdges freq newFreqEdge sd =
     (if sd = SideLeft then (newFreqEdge, freq * freq / newFreqEdge)
      else (freq * freq / newFreqEdge, newFreqEdge))"

text \<open>
  The new Q of a whisker drag, from the centre frequency and the dragged edge; \<open>None\<close>
  where the handler returns without a value. The handler calls it with an edge clamped to
  \<open>[20, 20000]\<close>.
\<close>

definition qFromEdge :: "real \<Rightarrow> real \<Rightarrow> side \<Rightarrow> real option" where
  "qFromEdge freq newFreqEdge sd =
     (let fLow = fst (dragEdges freq newFreqEdge sd);
          fHigh = snd (dragEdges freq newFreqEdge sd)
      in if fHigh \<le> fLow \<or> fLow \<le> 0 then None
         else
           (let bwOctaves = log 2 (fHigh / fLow)
            in if bwOctaves \<le> 0 then None
               else
                 (let newQ = 1 / (2 * sinh (bwOctaves * ln 2 / 2))
                  in Some (max 0.1 (min 10 (of_int (round (newQ * 100)) / 100))))))"

text \<open>
  The span of the whisker in pixels relative to the handle, from the edges clamped to the
  axis.
\<close>

definition whiskerSpan :: "env \<Rightarrow> real \<Rightarrow> real \<Rightarrow> real \<times> real" where
  "whiskerSpan env freq q =
     (let fLow = fst (edgesFromQ freq q);
          fHigh = snd (edgesFromQ freq q);
          pxCenter = scales_x env freq;
          pxLow = scales_x env (max 20 fLow) - pxCenter;
          pxHigh = scales_x env (min 20000 fHigh) - pxCenter
      in (pxLow, pxHigh))"

text \<open>
  The \<^verbatim>\<open>drag\<close> handler of \<^verbatim>\<open>whiskerDrag(side)\<close> on the whisker of the handle with key \<open>k\<close>,
  for the event's \<^verbatim>\<open>d3.event.x\<close>. (A handler only runs on an element that exists: the first
  case is there to make the function total.)
\<close>

definition whiskerDrag :: "env \<Rightarrow> side \<Rightarrow> nat \<Rightarrow> real \<Rightarrow> state \<Rightarrow> state outcome" where
  "whiskerDrag env sd k ev_x s =
     (case find (\<lambda>h. filterIndex h = k) (eqHandles s) of
        None \<Rightarrow> Returns s
      | Some h \<Rightarrow>
          (let d = datum h;
               freq = or_default (f_freq d) 1000;
               pxCenter = scales_x env freq;
               mouseX = ev_x + pxCenter;
               newFreqEdge = max 20 (min 20000 (scales_x_invert env mouseX))
           in case qFromEdge freq newFreqEdge sd of
                None \<Rightarrow> Returns s
              | Some newQ \<Rightarrow>
                  (case set_at (fi_q (inputs s)) k (Fin newQ) of
                     None \<Rightarrow> Throws TypeError s
                   | Some qs \<Rightarrow>
                       (let h' = h\<lparr>datum := d\<lparr>f_q := Some newQ\<rparr>,
                                    whisker_span := Some (whiskerSpan env freq newQ),
                                    outer_r := Some (qToRadius (Some newQ))\<rparr>
                        in Returns
                             (s\<lparr>inputs := (inputs s)\<lparr>fi_q := qs\<rparr>,
                                eqHandles :=
                                  map (\<lambda>g. if filterIndex g = k then h' else g) (eqHandles s)\<rparr>)))))"

section \<open>Reconciling the handles with the filters\<close>

text \<open>
  The handle \<^verbatim>\<open>enter().append("g")\<close> creates for a datum: no class, whisker and delete
  button at opacity 0, no derived attribute yet.
\<close>

definition new_handle :: "nat \<Rightarrow> filterObj \<Rightarrow> handle" where
  "new_handle i f =
     \<lparr>filterIndex = i, datum = f, cls_disabled = False, whisker_selected = False,
      whisker_span = None, outer_r = None\<rparr>"

text \<open>
  D3's keyed data join followed by \<^verbatim>\<open>exit().remove()\<close>, \<^verbatim>\<open>enter().append\<close> and
  \<^verbatim>\<open>enter.merge(handles)\<close>: for each datum in order, the first existing handle with its
  key, rebound to the datum, or else a new handle; every other existing handle is removed.
\<close>

definition data_join :: "handle list \<Rightarrow> (nat \<times> filterObj) list \<Rightarrow> handle list" where
  "data_join hs ds =
     map (\<lambda>(i, f). case find (\<lambda>h. filterIndex h = i) hs of
                      Some h \<Rightarrow> h\<lparr>datum := f\<rparr>
                    | None \<Rightarrow> new_handle i f) ds"

text \<open>
  The level a handle is drawn at, the argument of \<^verbatim>\<open>scales.y\<close> in the \<^verbatim>\<open>transform\<close>
  callback; it throws when the sampler does.
\<close>

definition handleLevel :: "env \<Rightarrow> phoneObj option \<Rightarrow> filterObj \<Rightarrow> error + jsnum" where
  "handleLevel env phoneObj d =
     (let freq = (case f_freq d of None \<Rightarrow> NaN | Some v \<Rightarrow> Fin v);
          gain = or_default (f_gain d) 0
      in case samplePhoneCurveAt (baseline_fn env) (getOffset env) phoneObj freq of
           Inl e \<Rightarrow> Inl e
         | Inr (Some curveY) \<Rightarrow> Inr (jadd curveY (Fin gain))
         | Inr None \<Rightarrow>
             Inr (Fin ((fst (scales_y_domain env) + snd (scales_y_domain env)) / 2 + gain)))"

text \<open>The attributes \<^verbatim>\<open>all.each\<close> derives from the datum.\<close>

definition renderHandle :: "env \<Rightarrow> handle \<Rightarrow> handle" where
  "renderHandle env h =
     (let d = datum h;
          r = qToRadius (f_q d);
          q = or_default (f_q d) 1;
          freq = or_default (f_freq d) 1000
      in h\<lparr>whisker_span := Some (whiskerSpan env freq q), outer_r := Some r\<rparr>)"

text \<open>
  \<^verbatim>\<open>updateEQHandles()\<close>. The \<^verbatim>\<open>transform\<close> attribute itself is not kept in the state;
  what is kept of that step is that a throw of the sampler ends the call after the join and
  before the class \<^verbatim>\<open>disabled\<close> and the derived attributes are set.
\<close>

definition updateEQHandles :: "env \<Rightarrow> state \<Rightarrow> state outcome" where
  "updateEQHandles env s =
     (if \<not> enabled s then Returns (s\<lparr>eqHandles := []\<rparr>)
      else
        (let phoneObj = getEQPhoneObj env s;
             filters = filter (\<lambda>(i, f). freq_assigned f) (enumerate 0 (getFilters env (inputs s)));
             joined = data_join (eqHandles s) filters
         in if list_ex (\<lambda>h. isl (handleLevel env phoneObj (datum h))) joined
            then Throws TypeError (s\<lparr>eqHandles := joined\<rparr>)
            else Returns
                   (s\<lparr>eqHandles :=
                        map (\<lambda>h. renderHandle env (h\<lparr>cls_disabled := f_disabled (datum h)\<rparr>))
                          joined\<rparr>)))"

section \<open>Creating a filter by a click on the graph\<close>

text \<open>
  The five assignments that fill slot \<open>idx\<close>, then \<^verbatim>\<open>callbacks.applyEQ()\<close>. Each assignment
  throws where the array has no element \<open>idx\<close>, leaving the earlier ones done.
\<close>

definition fillSlot :: "nat \<Rightarrow> real \<Rightarrow> jsnum \<Rightarrow> state \<Rightarrow> state outcome" where
  "fillSlot idx freq gain s =
     (case set_at (fi_enabled (inputs s)) idx True of
        None \<Rightarrow> Throws TypeError s
      | Some en \<Rightarrow>
     (let s1 = s\<lparr>inputs := (inputs s)\<lparr>fi_enabled := en\<rparr>\<rparr>
      in case set_at (fi_type (inputs s1)) idx ''PK'' of
        None \<Rightarrow> Throws TypeError s1
      | Some ty \<Rightarrow>
     (let s2 = s1\<lparr>inputs := (inputs s1)\<lparr>fi_type := ty\<rparr>\<rparr>
      in case set_at (fi_freq (inputs s2)) idx (Fin freq) of
        None \<Rightarrow> Throws TypeError s2
      | Some fr \<Rightarrow>
     (let s3 = s2\<lparr>inputs := (inputs s2)\<lparr>fi_freq := fr\<rparr>\<rparr>
      in case set_at (fi_gain (inputs s3)) idx gain of
        None \<Rightarrow> Throws TypeError s3
      | Some ga \<Rightarrow>
     (let s4 = s3\<lparr>inputs := (inputs s3)\<lparr>fi_gain := ga\<rparr>\<rparr>
      in case set_at (fi_q (inputs s4)) idx (Fin 1) of
        None \<Rightarrow> Throws TypeError s4
      | Some qs \<Rightarrow>
          Returns (s4\<lparr>inputs := (inputs s4)\<lparr>fi_q := qs\<rparr>,
                     applyEQ_calls := applyEQ_calls s4 + 1\<rparr>))))))"

text \<open>
  The slot \<^verbatim>\<open>handleGraphClick\<close> picks: the first unassigned filter, or else, below the
  maximum, a new band; \<open>None\<close> where it declines. The state returned has the band count and
  the input fields as the host callbacks left them.
\<close>

definition pickSlot :: "env \<Rightarrow> state \<Rightarrow> (nat \<times> state) option" where
  "pickSlot env s =
     (let filters = getFilters env (inputs s);
          idx = findIndex freq_unassigned filters
      in if idx = - 1 then
           (let bands0 = bands s; bandsMax = getBandsMax env
            in if bands0 < bandsMax then
                 Some (bands0,
                       s\<lparr>bands := bands0 + 1,
                         inputs := updateFilterElements env (bands0 + 1) (inputs s)\<rparr>)
               else None)
         else Some (nat idx, s))"

text \<open>
  The phone select takes its first real option (the second \<^verbatim>\<open>option\<close> element) when it
  has no value.
\<close>

definition selectFirstPhone :: "env \<Rightarrow> state \<Rightarrow> state" where
  "selectFirstPhone env s =
     (if selectValue s = [] then
        (case js_nth (selectOptions env) 1 of
           None \<Rightarrow> s
         | Some v \<Rightarrow> s\<lparr>selectValue := v\<rparr>)
      else s)"

text \<open>\<^verbatim>\<open>handleGraphClick(clientX, clientY)\<close>.\<close>

definition handleGraphClick :: "env \<Rightarrow> real \<Rightarrow> real \<Rightarrow> state \<Rightarrow> state outcome" where
  "handleGraphClick env clientX clientY s =
     (if \<not> enabled s \<or> isDragging s \<or> justDeletedFilter s then Returns s
      else
        (let svgPt = toSvgPoint env (clientX, clientY)
         in if fst svgPt < pad_l env \<or> fst svgPt > pad_l env + geometry_W env \<or>
               snd svgPt < pad_t env \<or> snd svgPt > pad_t env + geometry_H env
            then Returns s
            else
              (let freq = fst (toDomain env (clientX, clientY));
                   targetY = snd (toDomain env (clientX, clientY));
                   s1 = selectFirstPhone env s
               in case curveAt env s1 freq of
                    Inl e \<Rightarrow> Throws e s1
                  | Inr curveY \<Rightarrow>
                      (let gain = gainFor env targetY curveY
                       in case pickSlot env s1 of
                            None \<Rightarrow> Returns s1
                          | Some (idx, s2) \<Rightarrow>
                              (case fillSlot idx freq gain s2 of
                                 Throws e s3 \<Rightarrow> Throws e s3
                               | Returns s3 \<Rightarrow> updateEQHandles env s3)))))"

section \<open>Enabling and disabling\<close>

text \<open>
  \<^verbatim>\<open>addEventListener(type, listener, {capture})\<close> and \<^verbatim>\<open>removeEventListener\<close> on a
  target's listener list: a registration is the triple of type, listener and capture flag,
  adding one that is there changes nothing, removing takes it out.
\<close>

definition addEventListener ::
  "string \<times> listener \<times> bool \<Rightarrow> (string \<times> listener \<times> bool) list \<Rightarrow> (string \<times> listener \<times> bool) list"
where
  "addEventListener r rs = (if r \<in> set rs then rs else rs @ [r])"

definition removeEventListener ::
  "string \<times> listener \<times> bool \<Rightarrow> (string \<times> listener \<times> bool) list \<Rightarrow> (string \<times> listener \<times> bool) list"
where
  "removeEventListener r rs = removeAll r rs"

text \<open>
  D3's \<^verbatim>\<open>selection.on(typename, listener)\<close>: the listener registered under the typename
  is removed first; \<^verbatim>\<open>null\<close> (\<open>None\<close>) only removes.
\<close>

definition selection_on ::
  "string \<Rightarrow> handler option \<Rightarrow> (string \<times> handler) list \<Rightarrow> (string \<times> handler) list"
where
  "selection_on typename l reg =
     (let rest = filter (\<lambda>(t, _). t \<noteq> typename) reg
      in case l of None \<Rightarrow> rest | Some h \<Rightarrow> rest @ [(typename, h)])"

text \<open>
  \<^verbatim>\<open>enable()\<close>; its last statement is \<^verbatim>\<open>updateEQHandles()\<close>. The listeners on the
  interaction rectangle are closures made anew by each call; the registry keeps which of the
  three it is. Clearing the labels, raising the group and updating the paths are not part
  of the state.
\<close>

definition enable :: "env \<Rightarrow> state \<Rightarrow> state outcome" where
  "enable env s =
     (if \<not> initialized s then Returns s
      else
        updateEQHandles env
          (s\<lparr>enabled := True,
             svgEl_listeners :=
               addEventListener (''touchmove'', preventScrollOnHandles, True)
                 (addEventListener (''touchstart'', preventScrollOnHandles, True)
                    (svgEl_listeners s)),
             document_listeners :=
               addEventListener (''touchend'', handleTouchEnd, True) (document_listeners s),
             interactRect_on :=
               selection_on ''touchend.interactive'' (Some GraphTouchEnd)
                 (selection_on ''touchstart.interactive'' (Some GraphTouchStart)
                    (selection_on ''click.interactive'' (Some GraphClick)
                       (interactRect_on s)))\<rparr>))"

text \<open>\<^verbatim>\<open>disable()\<close>. Undoing the scroll lock and moving the group back are not modelled.\<close>

definition disable :: "state \<Rightarrow> state" where
  "disable s =
     (if \<not> initialized s then s
      else
        s\<lparr>enabled := False,
          svgEl_listeners :=
            removeEventListener (''touchmove'', preventScrollOnHandles, True)
              (removeEventListener (''touchstart'', preventScrollOnHandles, True)
                 (svgEl_listeners s)),
          document_listeners :=
            removeEventListener (''touchend'', handleTouchEnd, True) (document_listeners s),
          interactRect_on :=
            selection_on ''touchend.interactive'' None
              (selection_on ''touchstart.interactive'' None
                 (selection_on ''click.interactive'' None (interactRect_on s))),
          eqHandles := []\<rparr>)"

text \<open>One enable/disable cycle, and \<open>n\<close> of them.\<close>

definition cycle :: "env \<Rightarrow> state \<Rightarrow> state" where
  "cycle env s = disable (final (enable env s))"

definition listeners ::
  "state \<Rightarrow> (string \<times> listener \<times> bool) list \<times> (string \<times> listener \<times> bool) list \<times> (string \<times> handler) list"
where
  "listeners s = (svgEl_listeners s, document_listeners s, interactRect_on s)"

section \<open>An example chart, host and state\<close>

text \<open>
  Concrete values on which the functions above are evaluated: a chart whose scales are the
  identity (the pointer's x is the frequency, its y the level), a host that reads its filter
  list off the input fields row by row and resizes the five arrays to the band count, and
  an enabled module with one filter.
\<close>

definition finite_value :: "jsnum \<Rightarrow> real option" where
  "finite_value x = (case x of Fin a \<Rightarrow> Some a | _ \<Rightarrow> None)"

definition hostFilters :: "filterInputs \<Rightarrow> filterObj list" where
  "hostFilters fi =
     map (\<lambda>(en, ty, fr, ga, qq).
            \<lparr>f_disabled = \<not> en, f_type = ty, f_freq = finite_value fr,
             f_q = finite_value qq, f_gain = finite_value ga\<rparr>)
       (zip (fi_enabled fi) (zip (fi_type fi) (zip (fi_freq fi) (zip (fi_gain fi) (fi_q fi)))))"

definition resize :: "nat \<Rightarrow> 'a \<Rightarrow> 'a list \<Rightarrow> 'a list" where
  "resize n d xs = take n xs @ replicate (n - length xs) d"

definition hostResize :: "nat \<Rightarrow> filterInputs \<Rightarrow> filterInputs" where
  "hostResize n fi =
     \<lparr>fi_enabled = resize n True (fi_enabled fi), fi_type = resize n ''PK'' (fi_type fi),
      fi_freq = resize n (Fin 0) (fi_freq fi), fi_gain = resize n (Fin 0) (fi_gain fi),
      fi_q = resize n (Fin 1) (fi_q fi)\<rparr>"

definition demo_env :: env where
  "demo_env =
     \<lparr>scales_x = (\<lambda>f. f), scales_x_invert = (\<lambda>x. x), scales_y_invert = (\<lambda>y. y),
      scales_y_domain = (- 10, 10), toSvgPoint = (\<lambda>p. p),
      pad_l = 0, pad_t = - 100, geometry_W = 30000, geometry_H = 200,
      getActivePhones = [], getOffset = (\<lambda>p. 0), baseline_fn = (\<lambda>l. l),
      getFilters = hostFilters, getBandsMax = 10, updateFilterElements = hostResize,
      selectOptions = []\<rparr>"

definition idle_state :: state where
  "idle_state =
     \<lparr>initialized = True, enabled = True, isDragging = False, wasDragged = False,
      justDeletedFilter = False, pendingFrame = None, selectValue = [],
      inputs = \<lparr>fi_enabled = [True], fi_type = [''PK''], fi_freq = [Fin 1000],
                fi_gain = [Fin 0], fi_q = [Fin 1]\<rparr>,
      bands = 1, applyEQ_calls = 0, eqHandles = [], svgEl_listeners = [],
      document_listeners = [], interactRect_on = []\<rparr>"

definition demo_filter :: filterObj where
  "demo_filter =
     \<lparr>f_disabled = False, f_type = ''PK'', f_freq = Some 1000, f_q = Some 1, f_gain = Some 0\<rparr>"

definition handle_state :: state where
  "handle_state = idle_state\<lparr>eqHandles := [new_handle 0 demo_filter]\<rparr>"

text \<open>A phone with a three-point curve, and the chart and module with it selected.\<close>

definition demo_phone :: phoneObj where
  "demo_phone =
     \<lparr>isPrefBounds = False, fullName = ''Demo Phone'',
      activeCurves = Some [CurveObject (Samples [(20, 0), (1000, 3), (20000, 0)])],
      rawChannels = None\<rparr>"

definition phone_env :: env where
  "phone_env = demo_env\<lparr>getActivePhones := [demo_phone]\<rparr>"

definition phone_state :: state where
  "phone_state = idle_state\<lparr>selectValue := ''Demo Phone''\<rparr>"

text \<open>The one filter switched off in the host: its checkbox is not checked.\<close>

definition disabled_state :: state where
  "disabled_state = idle_state\<lparr>inputs := (inputs idle_state)\<lparr>fi_enabled := [False]\<rparr>\<rparr>"

text \<open>Two filters, the second one unassigned (frequency 0).\<close>

definition two_row_state :: state where
  "two_row_state =
     idle_state\<lparr>inputs := \<lparr>fi_enabled = [True, True], fi_type = [''PK'', ''PK''],
                              fi_freq = [Fin 1000, Fin 0], fi_gain = [Fin 0, Fin 0],
                              fi_q = [Fin 1, Fin 1]\<rparr>,
                 bands := 2\<rparr>"

text \<open>
  A phone whose curve ends in two samples at the same frequency and level, and the chart and
  module with it selected.
\<close>

definition tail_phone :: phoneObj where
  "tail_phone =
     \<lparr>isPrefBounds = False, fullName = ''Tail Phone'',
      activeCurves = Some [CurveObject (Samples [(20, 0), (1000, 3), (1000, 3)])],
      rawChannels = None\<rparr>"

definition tail_env :: env where
  "tail_env = demo_env\<lparr>getActivePhones := [tail_phone]\<rparr>"

definition tail_state :: state where
  "tail_state = idle_state\<lparr>selectValue := ''Tail Phone''\<rparr>"

text \<open>The one filter with \<open>v\<close> in its Q field.\<close>

definition q_state :: "jsnum \<Rightarrow> state" where
  "q_state v = idle_state\<lparr>inputs := (inputs idle_state)\<lparr>fi_q := [v]\<rparr>\<rparr>"

section \<open>Listener registries compared\<close>

text \<open>
  The three registries without the module's six registrations, and the registries as sets.
\<close>

definition unregistered ::
  "(string \<times> listener \<times> bool) list \<times> (string \<times> listener \<times> bool) list \<times> (string \<times> handler) list
   \<Rightarrow> (string \<times> listener \<times> bool) list \<times> (string \<times> listener \<times> bool) list \<times> (string \<times> handler) list"
where
  "unregistered ls =
     (case ls of (sv, doc, rect) \<Rightarrow>
        (removeEventListener (''touchmove'', preventScrollOnHandles, True)
           (removeEventListener (''touchstart'', preventScrollOnHandles, True) sv),
         removeEventListener (''touchend'', handleTouchEnd, True) doc,
         selection_on ''touchend.interactive'' None
           (selection_on ''touchstart.interactive'' None
              (selection_on ''click.interactive'' None rect))))"

definition listener_sets ::
  "state \<Rightarrow> (string \<times> listener \<times> bool) set \<times> (string \<times> listener \<times> bool) set \<times> (string \<times> handler) set"
where
  "listener_sets s = (set (svgEl_listeners s), set (document_listeners s), set (interactRect_on s))"

section \<open>A created filter\<close>

text \<open>
  The input fields with slot \<open>idx\<close> holding a new filter (enabled, type PK, the frequency,
  the gain, Q 1); a slot that exists in all five arrays; and a click that gets as far as
  creating a filter: the module is enabled, no drag or deletion is under way, the point is
  inside the plot, and the sampler returns (\<open>curveY\<close> is what it returns).
\<close>

definition slotFilled :: "nat \<Rightarrow> real \<Rightarrow> jsnum \<Rightarrow> filterInputs \<Rightarrow> filterInputs" where
  "slotFilled idx freq gain fi =
     fi\<lparr>fi_enabled := (fi_enabled fi)[idx := True],
        fi_type := (fi_type fi)[idx := ''PK''],
        fi_freq := (fi_freq fi)[idx := Fin freq],
        fi_gain := (fi_gain fi)[idx := gain],
        fi_q := (fi_q fi)[idx := Fin 1]\<rparr>"

definition has_slot :: "nat \<Rightarrow> filterInputs \<Rightarrow> bool" where
  "has_slot idx fi \<longleftrightarrow>
     idx < length (fi_enabled fi) \<and> idx < length (fi_type fi) \<and> idx < length (fi_freq fi) \<and>
     idx < length (fi_gain fi) \<and> idx < length (fi_q fi)"

definition creates :: "env \<Rightarrow> real \<Rightarrow> real \<Rightarrow> state \<Rightarrow> jsnum option \<Rightarrow> bool" where
  "creates env x y s curveY \<longleftrightarrow>
     enabled s \<and> \<not> isDragging s \<and> \<not> justDeletedFilter s \<and>
     pad_l env \<le> fst (toSvgPoint env (x, y)) \<and>
     fst (toSvgPoint env (x, y)) \<le> pad_l env + geometry_W env \<and>
     pad_t env \<le> snd (toSvgPoint env (x, y)) \<and>
     snd (toSvgPoint env (x, y)) \<le> pad_t env + geometry_H env \<and>
     curveAt env (selectFirstPhone env s) (fst (toDomain env (x, y))) = Inr curveY"


section \<open>Rounding to decimals, the range of Q, and the band of a whisker drag\<close>

text \<open>
  A number rounded to \<open>n\<close> decimals, a tie going up: \<^verbatim>\<open>Math.round(x * p) / p\<close> with
  \<open>p = 10\<^sup>n\<close>. The clamp of a Q to \<open>[0.1, 10]\<close>: \<^verbatim>\<open>Math.max(0.1, Math.min(10, x))\<close>.
\<close>

definition round_to :: "nat \<Rightarrow> real \<Rightarrow> real" where
  "round_to n x = of_int (round (x * 10 ^ n)) / 10 ^ n"

definition clamp_q :: "real \<Rightarrow> real" where
  "clamp_q x = max (1/10) (min 10 x)"

text \<open>
  The Q a frame of \<^verbatim>\<open>whiskerDrag\<close> computes from the two edges, before it is rounded:
  \<^verbatim>\<open>1 / (2 * Math.sinh(Math.log2(fHigh / fLow) * Math.LN2 / 2))\<close>.
\<close>

definition bandQ :: "real \<Rightarrow> real \<Rightarrow> real" where
  "bandQ fLow fHigh = 1 / (2 * sinh (log 2 (fHigh / fLow) * ln 2 / 2))"

text \<open>
  The edges \<open>(fLow, fHigh)\<close> a frame of \<^verbatim>\<open>whiskerDrag(side)\<close> reconstructs on the handle
  \<open>h\<close> for the event's \<^verbatim>\<open>d3.event.x\<close>: the dragged edge under the pointer, clamped to the
  axis, and its mirror image about the filter's frequency.
\<close>

definition dragBand :: "env \<Rightarrow> handle \<Rightarrow> side \<Rightarrow> real \<Rightarrow> real \<times> real" where
  "dragBand env h sd ev_x =
     (let freq = or_default (f_freq (datum h)) 1000;
          pxCenter = scales_x env freq;
          mouseX = ev_x + pxCenter;
          newFreqEdge = max 20 (min 20000 (scales_x_invert env mouseX))
      in dragEdges freq newFreqEdge sd)"

section \<open>The spec's rounding of Q\<close>

text \<open>
  The rounding of a stored Q as the specification words it: two decimals in coarse mode,
  three decimals in fine mode, then the clamp to \<open>[0.1, 10]\<close>. It is compared with what
  the wheel handler stores.
\<close>

definition spec_stored_q :: "bool \<Rightarrow> real \<Rightarrow> real" where
  "spec_stored_q fine x =
     (let p = (if fine then 1000 else 100)
      in max 0.1 (min 10 (of_int (round (x * p)) / p)))"

section \<open>The spec's set of handles\<close>

text \<open>
  The keys of the handles as the specification words the reconciliation: one per filter that
  is enabled (not \<^verbatim>\<open>disabled\<close>) and has a frequency above zero.
\<close>

definition spec_handle_keys :: "filterObj list \<Rightarrow> nat list" where
  "spec_handle_keys fs =
     filter (\<lambda>i. \<not> f_disabled (fs ! i) \<and> freq_assigned (fs ! i)) [0..<length fs]"

section \<open>Lemmas: rounding and clamping of Q\<close>

lemma clamp_low: "x \<le> 1/10 \<Longrightarrow> max (1/10) (min 10 x) = (1/10::real)"
  by (simp add: max_def min_def)

lemma clamp_high: "10 \<le> x \<Longrightarrow> max (1/10) (min 10 x) = (10::real)"
  by (simp add: max_def min_def)

lemma clamp_mid: "1/10 < x \<Longrightarrow> x < 10 \<Longrightarrow> max (1/10) (min 10 x) = (x::real)"
  by (simp add: max_def min_def)

text \<open>The clamp of a grid value is on the grid.\<close>

lemma clamp_on_grid:
  fixes p :: real
  assumes "p = 10 \<or> p = 100"
  shows "\<exists>k::int. max (1/10) (min 10 (of_int r / p)) = of_int k / p"
proof -
  define x where "x = real_of_int r / p"
  have lo: "(1/10::real) = of_int (if p = 10 then 1 else 10) / p"
    using assms by auto
  have hi: "(10::real) = of_int (if p = 10 then 100 else 1000) / p"
    using assms by auto
  consider "x \<le> 1/10" | "10 \<le> x" | "1/10 < x" "x < 10"
    by linarith
  then have "\<exists>k::int. max (1/10) (min 10 x) = of_int k / p"
  proof cases
    case 1
    then show ?thesis using clamp_low[of x] lo by metis
  next
    case 2
    then show ?thesis using clamp_high[of x] hi by metis
  next
    case 3
    then show ?thesis using clamp_mid[of x] x_def by metis
  qed
  then show ?thesis by (simp only: x_def)
qed

lemma clamp_bounds: "(1/10::real) \<le> max (1/10) (min 10 x) \<and> max (1/10) (min 10 x) \<le> 10"
  by simp

text \<open>Rounding to \<open>n\<close> decimals gives the nearest multiple of \<open>10\<^sup>-\<^sup>n\<close>.\<close>

lemma round_to_grid: "\<exists>k::int. round_to n x = of_int k / 10 ^ n"
  unfolding round_to_def by blast

lemma round_to_close: "\<bar>round_to n x - x\<bar> \<le> 1 / (2 * 10 ^ n)"
proof -
  define p :: real where "p = 10 ^ n"
  have p0: "0 < p" by (simp add: p_def)
  have "\<bar>of_int (round (x * p)) - x * p\<bar> \<le> 1/2"
    by (rule of_int_round_abs_le)
  then have "\<bar>of_int (round (x * p)) - x * p\<bar> / p \<le> (1/2) / p"
    using p0 by (intro divide_right_mono) simp_all
  moreover have "of_int (round (x * p)) / p - x = (of_int (round (x * p)) - x * p) / p"
    using p0 by (simp add: diff_divide_distrib)
  then have "\<bar>of_int (round (x * p)) / p - x\<bar> = \<bar>of_int (round (x * p)) - x * p\<bar> / p"
    using p0 by simp
  ultimately have "\<bar>of_int (round (x * p)) / p - x\<bar> \<le> 1 / (2 * p)" by simp
  then show ?thesis by (simp add: round_to_def p_def)
qed

text \<open>The spec's rounding, in the same words.\<close>

lemma spec_stored_q_round_to:
  "spec_stored_q fine x = clamp_q (round_to (if fine then 3 else 2) x)"
  by (simp add: spec_stored_q_def clamp_q_def round_to_def)

lemma clamp_q_grid:
  assumes "n = 1 \<or> n = 2"
  shows "\<exists>k::int. clamp_q (round_to n x) = of_int k / 10 ^ n"
proof -
  have "(10::real) ^ n = 10 \<or> (10::real) ^ n = 100" using assms by auto
  then show ?thesis
    unfolding clamp_q_def round_to_def by (rule clamp_on_grid)
qed

lemma clamp_q_bounds: "1/10 \<le> clamp_q x \<and> clamp_q x \<le> 10"
  by (simp add: clamp_q_def)

text \<open>What the wheel stores, by the kind of number the field held.\<close>

lemma wheel_stored:
  fixes v :: jsnum and st :: real and n :: nat
  assumes "n = 1 \<or> n = 2"
  shows "\<exists>q. jmax (Fin 0.1) (jmin (Fin 10)
               (jdiv (jround (jmul (jadd (js_or v (Fin 1)) (Fin st)) (Fin (10 ^ n)))) (Fin (10 ^ n))))
             = Fin q
           \<and> (\<forall>a. v = Fin a \<and> a \<noteq> 0 \<longrightarrow> q = clamp_q (round_to n (a + st)))
           \<and> (v = NaN \<or> v = Fin 0 \<longrightarrow> q = clamp_q (round_to n (1 + st)))
           \<and> (v = PInf \<longrightarrow> q = 10)
           \<and> (v = NInf \<longrightarrow> q = 1/10)
           \<and> (\<exists>k::int. q = of_int k / 10 ^ n)
           \<and> 1/10 \<le> q \<and> q \<le> 10"
proof -
  let ?f = "\<lambda>u. jmax (Fin 0.1) (jmin (Fin 10)
               (jdiv (jround (jmul (jadd u (Fin st)) (Fin (10 ^ n)))) (Fin (10 ^ n))))"
  have fin: "?f (Fin a) = Fin (clamp_q (round_to n (a + st)))" for a
    by (simp add: clamp_q_def round_to_def)
  have pinf: "?f PInf = Fin 10" by (simp add: jinf_def)
  have ninf: "?f NInf = Fin (1/10)" by (simp add: jinf_def)
  have ten: "\<exists>k::int. (10::real) = of_int k / 10 ^ n"
    using assms by (intro exI[of _ "10 ^ (n + 1)"]) auto
  have tenth: "\<exists>k::int. (1/10::real) = of_int k / 10 ^ n"
    using assms by (intro exI[of _ "10 ^ (n - 1)"]) auto
  show ?thesis
  proof (cases v)
    case (Fin a)
    show ?thesis
    proof (cases "a = 0")
      case True
      then have "?f (js_or v (Fin 1)) = Fin (clamp_q (round_to n (1 + st)))"
        using Fin fin[of 1] by (simp add: js_or_def)
      then show ?thesis
        using Fin True clamp_q_grid[OF assms, of "1 + st"] clamp_q_bounds[of "round_to n (1 + st)"]
        by simp
    next
      case False
      then have "?f (js_or v (Fin 1)) = Fin (clamp_q (round_to n (a + st)))"
        using Fin fin[of a] by (simp add: js_or_def)
      then show ?thesis
        using Fin False clamp_q_grid[OF assms, of "a + st"] clamp_q_bounds[of "round_to n (a + st)"]
        by simp
    qed
  next
    case PInf
    then have "?f (js_or v (Fin 1)) = Fin 10" using pinf by (simp add: js_or_def)
    then show ?thesis using PInf ten by (intro exI[of _ 10]) simp
  next
    case NInf
    then have "?f (js_or v (Fin 1)) = Fin (1/10)" using ninf by (simp add: js_or_def)
    then show ?thesis using NInf tenth by (intro exI[of _ "1/10"]) simp
  next
    case NaN
    then have "?f (js_or v (Fin 1)) = Fin (clamp_q (round_to n (1 + st)))"
      using fin[of 1] by (simp add: js_or_def)
    then show ?thesis
      using NaN clamp_q_grid[OF assms, of "1 + st"] clamp_q_bounds[of "round_to n (1 + st)"]
      by simp
  qed
qed


lemma wheel_returns:
  assumes "enabled s" and "idx < length (fi_q (inputs s))"
  shows "wheel idx shiftKey deltaY s =
           Returns (s\<lparr>inputs := (inputs s)\<lparr>fi_q := (fi_q (inputs s))
              [idx := jmax (Fin 0.1) (jmin (Fin 10)
                 (jdiv (jround (jmul (jadd (js_or (fi_q (inputs s) ! idx) (Fin 1))
                    (Fin ((if deltaY < 0 then 1 else - 1) * (if shiftKey then 1/100 else 1/10))))
                    (Fin (10 ^ (if shiftKey then 2 else 1)))))
                  (Fin (10 ^ (if shiftKey then 2 else 1)))))]\<rparr>,
              applyEQ_calls := applyEQ_calls s + 1\<rparr>)"
  using assms by (simp add: wheel_def js_nth_def Let_def)

lemma qFromEdge_value:
  assumes "qFromEdge freq e sd = Some v"
  shows "\<exists>x::real. v = max (1/10) (min 10 (of_int (round (x * 100)) / 100))"
proof -
  let ?x = "1 / (2 * sinh (log 2 (snd (dragEdges freq e sd) / fst (dragEdges freq e sd)) * ln 2 / 2))"
  have "qFromEdge freq e sd = None \<or>
        qFromEdge freq e sd = Some (max 0.1 (min 10 (of_int (round (?x * 100)) / 100)))"
    unfolding qFromEdge_def Let_def by simp
  then have "v = max 0.1 (min 10 (of_int (round (?x * 100)) / 100))"
    using assms by auto
  then show ?thesis by blast
qed

lemma qFromEdge_on_grid:
  assumes "qFromEdge freq e sd = Some v"
  shows "\<exists>k::int. v = of_int k / 100 \<and> 1/10 \<le> v \<and> v \<le> 10"
proof -
  obtain x :: real where v: "v = max (1/10) (min 10 (of_int (round (x * 100)) / 100))"
    using qFromEdge_value[OF assms] by blast
  obtain k :: int where "max (1/10) (min 10 (of_int (round (x * 100)) / (100::real))) = of_int k / 100"
    using clamp_on_grid[of 100 "round (x * 100)"] by auto
  then show ?thesis
    using v clamp_bounds[of "of_int (round (x * 100)) / 100"] by auto
qed

lemma whiskerDrag_cases:
  "final (whiskerDrag env sd key ev_x s) = s \<or>
   (\<exists>h v. find (\<lambda>h. filterIndex h = key) (eqHandles s) = Some h \<and>
      qFromEdge (or_default (f_freq (datum h)) 1000)
        (max 20 (min 20000 (scales_x_invert env (ev_x + scales_x env (or_default (f_freq (datum h)) 1000)))))
        sd = Some v \<and>
      key < length (fi_q (inputs s)) \<and>
      fi_q (inputs (final (whiskerDrag env sd key ev_x s))) = (fi_q (inputs s))[key := Fin v])"
  by (auto simp: whiskerDrag_def Let_def set_at_def split: option.splits if_splits)

section \<open>Lemmas: the bandwidth formulas\<close>

text \<open>\<^verbatim>\<open>sinh\<close> undoes \<^verbatim>\<open>asinh\<close> on half the bandwidth.\<close>

lemma sinh_half_band:
  assumes "0 < q"
  shows "1 / (2 * sinh ((2 * arsinh (1 / (2 * q)) / ln 2) * ln 2 / 2)) = (q::real)"
proof -
  have "(2 * arsinh (1 / (2 * q)) / ln 2) * ln 2 / 2 = arsinh (1 / (2 * q))"
    by simp
  then show ?thesis using assms by simp
qed

lemma round_q_in_range:
  assumes "1/10 \<le> (q::real)" and "q \<le> 10"
  shows "max (1/10) (min 10 (of_int (round (q * 100)) / 100)) = of_int (round (q * 100)) / (100::real)"
proof -
  have "round (10::real) \<le> round (q * 100)" using assms(1) by (intro round_mono) simp
  moreover have "round (q * 100) \<le> round (1000::real)" using assms(2) by (intro round_mono) simp
  ultimately have "10 \<le> round (q * 100)" "round (q * 100) \<le> 1000" by simp_all
  then have "(10::real) \<le> of_int (round (q * 100))" "of_int (round (q * 100)) \<le> (1000::real)"
    by linarith+
  then show ?thesis by (simp add: max_def min_def)
qed

lemma round_q_close: "\<bar>of_int (round (q * 100)) / 100 - (q::real)\<bar> \<le> 1/200"
proof -
  have "\<bar>of_int (round (q * 100)) - q * 100\<bar> \<le> 1/2"
    by (rule of_int_round_abs_le)
  then show ?thesis by (simp add: abs_le_iff field_simps)
qed

lemma qFromEdge_band:
  assumes "0 < f0" and "1 < r"
  shows "qFromEdge f0 (f0 * r) SideRight
           = Some (max (1/10) (min 10 (of_int (round (1 / (2 * sinh (log 2 (r * r) * ln 2 / 2)) * 100)) / 100)))"
    and "qFromEdge f0 (f0 / r) SideLeft
           = Some (max (1/10) (min 10 (of_int (round (1 / (2 * sinh (log 2 (r * r) * ln 2 / 2)) * 100)) / 100)))"
proof -
  have r0: "0 < r" using assms(2) by simp
  have lo: "f0 * f0 / (f0 * r) = f0 / r" using assms(1) by simp
  have hi: "f0 * f0 / (f0 / r) = f0 * r" using assms(1) by simp
  have ratio: "f0 * r / (f0 / r) = r * r" using assms(1) r0 by simp
  have lt: "f0 / r < f0 * r"
  proof -
    have "f0 / r < f0" using assms r0 by (simp add: field_simps)
    also have "f0 < f0 * r" using assms by simp
    finally show ?thesis .
  qed
  have pos: "0 < f0 / r" using assms(1) r0 by simp
  have "1 * 1 < r * r" using assms(2) by (intro mult_strict_mono) simp_all
  then have bw: "0 < log 2 (r * r)" by simp
  have eR: "dragEdges f0 (f0 * r) SideRight = (f0 / r, f0 * r)"
    using assms(1) by (simp add: dragEdges_def)
  have eL: "dragEdges f0 (f0 / r) SideLeft = (f0 / r, f0 * r)"
    using assms(1) by (simp add: dragEdges_def)
  show "qFromEdge f0 (f0 * r) SideRight
           = Some (max (1/10) (min 10 (of_int (round (1 / (2 * sinh (log 2 (r * r) * ln 2 / 2)) * 100)) / 100)))"
    unfolding qFromEdge_def eR Let_def fst_conv snd_conv ratio using lt pos bw by simp
  show "qFromEdge f0 (f0 / r) SideLeft
           = Some (max (1/10) (min 10 (of_int (round (1 / (2 * sinh (log 2 (r * r) * ln 2 / 2)) * 100)) / 100)))"
    unfolding qFromEdge_def eL Let_def fst_conv snd_conv ratio using lt pos bw by simp
qed

lemma band_ratio:
  assumes "0 < (q::real)"
  shows "1 < 2 powr ((2 * arsinh (1 / (2 * q)) / ln 2) / 2)"
    and "log 2 (2 powr ((2 * arsinh (1 / (2 * q)) / ln 2) / 2) * 2 powr ((2 * arsinh (1 / (2 * q)) / ln 2) / 2))
           = 2 * arsinh (1 / (2 * q)) / ln 2"
proof -
  have "0 < arsinh (1 / (2 * q))" using assms by simp
  then have "0 < (2 * arsinh (1 / (2 * q)) / ln 2) / 2" by simp
  then show "1 < 2 powr ((2 * arsinh (1 / (2 * q)) / ln 2) / 2)" by simp
  have "2 powr ((2 * arsinh (1 / (2 * q)) / ln 2) / 2) * 2 powr ((2 * arsinh (1 / (2 * q)) / ln 2) / 2)
          = 2 powr (2 * arsinh (1 / (2 * q)) / ln 2)"
    by (simp add: powr_add[symmetric])
  then show "log 2 (2 powr ((2 * arsinh (1 / (2 * q)) / ln 2) / 2) * 2 powr ((2 * arsinh (1 / (2 * q)) / ln 2) / 2))
           = 2 * arsinh (1 / (2 * q)) / ln 2"
    by simp
qed

text \<open>
  The Q of a band is the geometric mean of its edges over its width; for the edges of a
  whisker drag, whose product is the square of the centre frequency, the centre over the
  width.
\<close>

lemma bandQ_ratio:
  assumes "0 < fLow" and "fLow < fHigh"
  shows "bandQ fLow fHigh = sqrt (fLow * fHigh) / (fHigh - fLow)"
proof -
  define r where "r = fHigh / fLow"
  have r1: "1 < r" using assms by (simp add: r_def)
  then have r0: "0 < r" by simp
  have half: "log 2 r * ln 2 / 2 = ln r / 2" by (simp add: log_def)
  have e1: "exp (ln r / 2) = sqrt r"
    using r0 by (simp add: powr_half_sqrt[symmetric] powr_def)
  have e2: "exp (- (ln r / 2)) = 1 / sqrt r"
    using e1 by (simp add: exp_minus inverse_eq_divide)
  have s0: "0 < sqrt r" using r0 by simp
  have "2 * sinh (ln r / 2) = sqrt r - 1 / sqrt r"
    by (simp add: sinh_def e1 e2 field_simps)
  also have "\<dots> = (r - 1) / sqrt r"
    using s0 r0 by (simp add: field_simps)
  finally have "bandQ fLow fHigh = sqrt r / (r - 1)"
    unfolding bandQ_def r_def[symmetric] half by simp
  also have "sqrt r = sqrt (fLow * fHigh) / fLow"
  proof -
    have "r = (fLow * fHigh) / (fLow * fLow)" using assms by (simp add: r_def)
    then have "sqrt r = sqrt (fLow * fHigh) / sqrt (fLow * fLow)"
      by (simp only: real_sqrt_divide)
    moreover have "sqrt (fLow * fLow) = fLow" using assms(1) by simp
    ultimately show ?thesis by simp
  qed
  also have "r - 1 = (fHigh - fLow) / fLow"
    using assms by (simp add: r_def field_simps)
  finally show ?thesis using assms by simp
qed

lemma bandQ_centre:
  assumes "0 < freq" and "0 < fLow" and "fLow < fHigh" and "fLow * fHigh = freq * freq"
  shows "bandQ fLow fHigh = freq / (fHigh - fLow)"
  using bandQ_ratio[OF assms(2,3)] assms(1) by (simp add: assms(4))

lemma qFromEdge_exact:
  assumes "0 < fst (dragEdges freq e sd)" and "fst (dragEdges freq e sd) < snd (dragEdges freq e sd)"
  shows "qFromEdge freq e sd =
           Some (clamp_q (round_to 2 (bandQ (fst (dragEdges freq e sd)) (snd (dragEdges freq e sd)))))"
proof -
  have "1 < snd (dragEdges freq e sd) / fst (dragEdges freq e sd)"
    using assms by simp
  then have "0 < log 2 (snd (dragEdges freq e sd) / fst (dragEdges freq e sd))"
    by simp
  then show ?thesis
    using assms by (simp add: qFromEdge_def Let_def clamp_q_def round_to_def bandQ_def)
qed

lemma qFromEdge_rounded:
  assumes "qFromEdge freq e sd = Some v"
  shows "v = clamp_q (round_to 2 (bandQ (fst (dragEdges freq e sd)) (snd (dragEdges freq e sd))))"
  using assms
  by (simp add: qFromEdge_def Let_def clamp_q_def round_to_def bandQ_def split: if_splits)

text \<open>A frame of a whisker drag on an existing handle and field, with the edges in order.\<close>

lemma dragBand_edges:
  "dragBand env h sd ev_x =
     dragEdges (or_default (f_freq (datum h)) 1000)
       (max 20 (min 20000 (scales_x_invert env (ev_x + scales_x env (or_default (f_freq (datum h)) 1000)))))
       sd"
  by (simp add: dragBand_def Let_def)

lemma whiskerDrag_writes:
  assumes "find (\<lambda>h. filterIndex h = key) (eqHandles s) = Some h"
    and "key < length (fi_q (inputs s))"
    and "0 < fst (dragBand env h sd ev_x)"
    and "fst (dragBand env h sd ev_x) < snd (dragBand env h sd ev_x)"
  shows "returns (whiskerDrag env sd key ev_x s)"
    and "fi_q (inputs (final (whiskerDrag env sd key ev_x s))) =
           (fi_q (inputs s))[key := Fin (clamp_q (round_to 2
              (bandQ (fst (dragBand env h sd ev_x)) (snd (dragBand env h sd ev_x)))))]"
proof -
  have q: "qFromEdge (or_default (f_freq (datum h)) 1000)
       (max 20 (min 20000 (scales_x_invert env (ev_x + scales_x env (or_default (f_freq (datum h)) 1000)))))
       sd = Some (clamp_q (round_to 2
              (bandQ (fst (dragBand env h sd ev_x)) (snd (dragBand env h sd ev_x)))))"
    using qFromEdge_exact assms(3,4) unfolding dragBand_edges by blast
  show "returns (whiskerDrag env sd key ev_x s)"
    using assms(1,2) by (simp add: whiskerDrag_def Let_def q set_at_def)
  show "fi_q (inputs (final (whiskerDrag env sd key ev_x s))) =
           (fi_q (inputs s))[key := Fin (clamp_q (round_to 2
              (bandQ (fst (dragBand env h sd ev_x)) (snd (dragBand env h sd ev_x)))))]"
    using assms(1,2) by (simp add: whiskerDrag_def Let_def q set_at_def)
qed

lemma whiskerDrag_stores:
  "final (whiskerDrag env sd key ev_x s) = s \<or>
   (\<exists>h. find (\<lambda>h. filterIndex h = key) (eqHandles s) = Some h \<and>
      fi_q (inputs (final (whiskerDrag env sd key ev_x s))) =
        (fi_q (inputs s))[key := Fin (clamp_q (round_to 2
           (bandQ (fst (dragBand env h sd ev_x)) (snd (dragBand env h sd ev_x)))))])"
  using whiskerDrag_cases[of env sd key ev_x s] qFromEdge_rounded
  unfolding dragBand_edges by blast

text \<open>The whisker drag of the example: the right whisker of a filter at 1000 Hz taken to 2000 Hz.\<close>

lemma demo_drag_band:
  "dragBand demo_env (new_handle 0 demo_filter) SideRight 1000 = (500, 2000)"
  by (simp add: dragBand_def demo_env_def new_handle_def demo_filter_def or_default_def
        dragEdges_def Let_def)

lemma demo_band_q: "bandQ 500 2000 = 2/3"
  using bandQ_centre[of 1000 500 2000] by simp

lemma demo_handle:
  "find (\<lambda>h. filterIndex h = 0) (eqHandles handle_state) = Some (new_handle 0 demo_filter)"
  "fi_q (inputs handle_state) = [Fin 1]"
  by (simp_all add: handle_state_def idle_state_def new_handle_def)

lemma round_examples:
  "clamp_q (round_to 1 (1234/1000 + 1/10)) = 13/10"
  "clamp_q (round_to 2 (1234/1000 + 1/100)) = 124/100"
  "clamp_q (round_to 2 (2/3)) = 67/100"
  by (simp_all add: clamp_q_def round_to_def round_def)

lemma spec_examples:
  "spec_stored_q False (1234/1000 + 1/10) = 133/100"
  "spec_stored_q True (1234/1000 + 1/100) = 1244/1000"
  "spec_stored_q True (2/3) = 667/1000"
  by (simp_all add: spec_stored_q_def round_def)

lemma q_state_fields:
  "enabled (q_state v)" "fi_q (inputs (q_state v)) = [v]" "applyEQ_calls (q_state v) = 0"
  by (simp_all add: q_state_def idle_state_def)

section \<open>Lemmas: the drag gesture\<close>

lemma hypot_less_5: "hypot a b < 5 \<longleftrightarrow> a\<^sup>2 + b\<^sup>2 < 25"
proof -
  have "sqrt (a\<^sup>2 + b\<^sup>2) < sqrt 25 \<longleftrightarrow> a\<^sup>2 + b\<^sup>2 < 25"
    by (rule real_sqrt_less_iff)
  then show ?thesis by (simp add: hypot_def)
qed

lemma onMove_within:
  assumes "\<not> moved g" and "within_threshold (startX g) (startY g) (Move cx cy)"
  shows "onMove cx cy (g, s) = (g, s)"
  using assms by (simp add: onMove_def Let_def)

lemma onMove_beyond:
  assumes "\<not> within_threshold (startX g) (startY g) (Move cx cy)"
  shows "moved (fst (onMove cx cy (g, s)))"
  using assms by (simp add: onMove_def Let_def)

lemma onMove_moved:
  assumes "moved g"
  shows "moved (fst (onMove cx cy (g, s)))"
  using assms by (simp add: onMove_def Let_def)

lemma onMove_keeps:
  "startX (fst (onMove cx cy (g, s))) = startX g"
  "startY (fst (onMove cx cy (g, s))) = startY g"
  "applyEQ_calls (snd (onMove cx cy (g, s))) = applyEQ_calls s"
  by (simp_all add: onMove_def Let_def)

lemma dragFrame_applyEQ: "applyEQ_calls (final (dragFrame env fr s)) = applyEQ_calls s"
  by (cases fr) (simp add: dragFrame_def Let_def split: sum.splits option.splits)

lemma drag_step_moved:
  assumes "moved g"
  shows "moved (fst (drag_step env (g, s) ev))"
  using assms by (cases ev) (simp_all add: onMove_moved split: option.splits)

lemma drag_step_applyEQ:
  "applyEQ_calls (snd (drag_step env (g, s) ev)) = applyEQ_calls s"
  by (cases ev) (simp_all add: onMove_keeps dragFrame_applyEQ split: option.splits)

lemma fold_moved:
  assumes "moved (fst gs)"
  shows "moved (fst (foldl (drag_step env) gs evs))"
  using assms
proof (induction evs arbitrary: gs)
  case Nil
  then show ?case by simp
next
  case (Cons ev evs)
  obtain g s where gs: "gs = (g, s)" by (cases gs)
  have "moved (fst (drag_step env gs ev))"
    using Cons.prems drag_step_moved[of g env s ev] by (simp add: gs)
  then show ?case using Cons.IH by simp
qed

lemma fold_applyEQ:
  "applyEQ_calls (snd (foldl (drag_step env) gs evs)) = applyEQ_calls (snd gs)"
proof (induction evs arbitrary: gs)
  case Nil
  then show ?case by simp
next
  case (Cons ev evs)
  obtain g s where gs: "gs = (g, s)" by (cases gs)
  have "applyEQ_calls (snd (drag_step env gs ev)) = applyEQ_calls (snd gs)"
    using drag_step_applyEQ[of env g s ev] by (simp add: gs)
  then show ?case using Cons.IH[of "drag_step env gs ev"] by simp
qed

lemma fold_within:
  assumes "\<not> moved g" and "pendingFrame s = None"
    and "\<forall>ev\<in>set evs. within_threshold (startX g) (startY g) ev"
  shows "foldl (drag_step env) (g, s) evs = (g, s)"
  using assms(3)
proof (induction evs)
  case Nil
  then show ?case by simp
next
  case (Cons ev evs)
  have "drag_step env (g, s) ev = (g, s)"
  proof (cases ev)
    case (Move cx cy)
    then show ?thesis using Cons.prems assms(1) onMove_within[of g cx cy s] by simp
  next
    case Frame
    then show ?thesis using assms(2) by simp
  qed
  then show ?case using Cons by simp
qed

lemma fold_start:
  "startX (fst (foldl (drag_step env) gs evs)) = startX (fst gs) \<and>
   startY (fst (foldl (drag_step env) gs evs)) = startY (fst gs)"
proof (induction evs arbitrary: gs)
  case Nil
  then show ?case by simp
next
  case (Cons ev evs)
  obtain g s where gs: "gs = (g, s)" by (cases gs)
  have "startX (fst (drag_step env gs ev)) = startX (fst gs) \<and>
        startY (fst (drag_step env gs ev)) = startY (fst gs)"
    unfolding gs by (cases ev) (simp_all add: onMove_keeps split: option.splits)
  then show ?case using Cons.IH[of "drag_step env gs ev"] by simp
qed

text \<open>From the move that reaches the threshold on, the gesture is a drag.\<close>

lemma fold_beyond:
  assumes "\<not> within_threshold (startX g) (startY g) (Move cx cy)"
  shows "moved (fst (foldl (drag_step env) (g, s) (pre @ Move cx cy # post)))"
proof -
  obtain g1 s1 where pre: "foldl (drag_step env) (g, s) pre = (g1, s1)"
    by (cases "foldl (drag_step env) (g, s) pre")
  have "startX g1 = startX g \<and> startY g1 = startY g"
    using fold_start[of env "(g, s)" pre] by (simp add: pre)
  then have "moved (fst (drag_step env (g1, s1) (Move cx cy)))"
    using assms onMove_beyond[of g1 cx cy s1] by simp
  then have "moved (fst (foldl (drag_step env) (drag_step env (g1, s1) (Move cx cy)) post))"
    by (rule fold_moved)
  then show ?thesis by (simp add: pre)
qed

text \<open>A gesture of an enabled module, as the run of its events from the state of pointer-down.\<close>

lemma gesture_enabled:
  assumes "enabled s"
  shows "gesture env idx x0 y0 evs s =
           onUp (foldl (drag_step env)
                   (\<lparr>drag_filterIndex = idx, startX = x0, startY = y0, moved = False\<rparr>,
                    s\<lparr>isDragging := True, wasDragged := False\<rparr>) evs)"
  using assms by (simp add: gesture_def startDrag_def)

section \<open>Lemmas: the gain of the two write paths\<close>

text \<open>The spec's example of the sampler: the three-point curve at 500 Hz.\<close>

lemma sample_example:
  "samplePhoneCurveAt (\<lambda>l. l) (\<lambda>p. 0) (Some demo_phone) (Fin 500) = Inr (Some (Fin (3 * 480 / 980)))"
  by (simp add: samplePhoneCurveAt_def demo_phone_def activeCurveData_def js_nth_def
        interpolate_def jsub_def Let_def)

text \<open>The clamp works on every number but \<^verbatim>\<open>NaN\<close>, the infinities included.\<close>

lemma gainFor_range:
  assumes "curveY \<noteq> Some NaN"
  shows "\<exists>g. gainFor env targetY curveY = Fin g \<and> - 40 \<le> g \<and> g \<le> 40"
proof (cases curveY)
  case None
  then show ?thesis by (simp add: gainFor_def Let_def)
next
  case (Some c)
  then show ?thesis
    using assms by (cases c) (simp_all add: gainFor_def Let_def jsub_def jinf_def)
qed

lemma updateEQHandles_inputs: "inputs (final (updateEQHandles env s)) = inputs s"
  by (simp add: updateEQHandles_def Let_def)

lemma fillSlot_gain:
  "fi_gain (inputs (final (fillSlot idx f g s))) = fi_gain (inputs s) \<or>
   fi_gain (inputs (final (fillSlot idx f g s))) = (fi_gain (inputs s))[idx := g]"
  by (simp add: fillSlot_def set_at_def Let_def)

lemma pickSlot_inputs:
  assumes "pickSlot env s = Some (idx, s2)"
  shows "inputs s2 = inputs s \<or> inputs s2 = updateFilterElements env (bands s + 1) (inputs s)"
  using assms by (auto simp: pickSlot_def Let_def split: if_splits)

lemma selectFirstPhone_keeps:
  "inputs (selectFirstPhone env s) = inputs s" "bands (selectFirstPhone env s) = bands s"
  by (simp_all add: selectFirstPhone_def split: option.splits)

lemma curveAt_pendingFrame: "curveAt env (s\<lparr>pendingFrame := p\<rparr>) f = curveAt env s f"
  by (simp add: curveAt_def getEQPhoneObj_def)

lemma dragFrame_gain:
  assumes "curveAt env s (fst (toDomain env (cx, cy))) \<noteq> Inr (Some NaN)"
  shows "fi_gain (inputs (final (dragFrame env (idx, cx, cy) s))) = fi_gain (inputs s) \<or>
         (\<exists>g. fi_gain (inputs (final (dragFrame env (idx, cx, cy) s))) = (fi_gain (inputs s))[idx := Fin g]
              \<and> - 40 \<le> g \<and> g \<le> 40)"
proof (cases "curveAt env s (fst (toDomain env (cx, cy)))")
  case (Inl e)
  then show ?thesis by (simp add: dragFrame_def Let_def curveAt_pendingFrame)
next
  case (Inr curveY)
  then have "curveY \<noteq> Some NaN" using assms by simp
  then obtain g where g: "gainFor env (snd (toDomain env (cx, cy))) curveY = Fin g"
      "- 40 \<le> g" "g \<le> 40"
    using gainFor_range by blast
  have "fi_gain (inputs (final (dragFrame env (idx, cx, cy) s))) = fi_gain (inputs s) \<or>
        fi_gain (inputs (final (dragFrame env (idx, cx, cy) s))) = (fi_gain (inputs s))[idx := Fin g]"
    using Inr g(1)
    by (simp add: dragFrame_def Let_def curveAt_pendingFrame set_at_def split: option.splits)
  then show ?thesis using g(2,3) by blast
qed

lemma handleGraphClick_gain:
  assumes "curveAt env (selectFirstPhone env s) (fst (toDomain env (x, y))) \<noteq> Inr (Some NaN)"
  shows "\<exists>base. (base = inputs s \<or> base = updateFilterElements env (bands s + 1) (inputs s)) \<and>
           (fi_gain (inputs (final (handleGraphClick env x y s))) = fi_gain base \<or>
            (\<exists>i g. fi_gain (inputs (final (handleGraphClick env x y s))) = (fi_gain base)[i := Fin g]
                 \<and> - 40 \<le> g \<and> g \<le> 40))"
proof -
  let ?s1 = "selectFirstPhone env s"
  let ?out = "final (handleGraphClick env x y s)"
  have same: "fi_gain (inputs ?out) = fi_gain (inputs s) \<Longrightarrow> ?thesis" by blast
  define blocked where "blocked \<longleftrightarrow> \<not> enabled s \<or> isDragging s \<or> justDeletedFilter s"
  define outside where "outside \<longleftrightarrow>
    (let svgPt = toSvgPoint env (x, y)
     in fst svgPt < pad_l env \<or> fst svgPt > pad_l env + geometry_W env \<or>
        snd svgPt < pad_t env \<or> snd svgPt > pad_t env + geometry_H env)"
  show ?thesis
  proof (cases "blocked \<or> outside")
    case True
    then have "handleGraphClick env x y s = Returns s"
      unfolding blocked_def outside_def handleGraphClick_def Let_def by auto
    then show ?thesis by (intro same) simp
  next
    case False
    then have run: "handleGraphClick env x y s =
      (case curveAt env ?s1 (fst (toDomain env (x, y))) of
         Inl e \<Rightarrow> Throws e ?s1
       | Inr curveY \<Rightarrow>
           (case pickSlot env ?s1 of
              None \<Rightarrow> Returns ?s1
            | Some (idx, s2) \<Rightarrow>
                (case fillSlot idx (fst (toDomain env (x, y)))
                        (gainFor env (snd (toDomain env (x, y))) curveY) s2 of
                   Throws e s3 \<Rightarrow> Throws e s3
                 | Returns s3 \<Rightarrow> updateEQHandles env s3)))"
      unfolding blocked_def outside_def handleGraphClick_def Let_def by auto
    show ?thesis
    proof (cases "curveAt env ?s1 (fst (toDomain env (x, y)))")
      case (Inl e)
      then show ?thesis by (intro same) (simp add: run selectFirstPhone_keeps)
    next
      case (Inr curveY)
      then have "curveY \<noteq> Some NaN" using assms by simp
      then obtain g where g: "gainFor env (snd (toDomain env (x, y))) curveY = Fin g"
          "- 40 \<le> g" "g \<le> 40"
        using gainFor_range by blast
      show ?thesis
      proof (cases "pickSlot env ?s1")
        case None
        then show ?thesis using Inr by (intro same) (simp add: run selectFirstPhone_keeps)
      next
        case (Some slot)
        obtain idx s2 where slot: "slot = (idx, s2)" by (cases slot)
        have base: "inputs s2 = inputs s \<or>
                    inputs s2 = updateFilterElements env (bands s + 1) (inputs s)"
          using pickSlot_inputs[of env ?s1 idx s2] Some slot
          by (simp add: selectFirstPhone_keeps)
        have out: "inputs ?out = inputs (final (fillSlot idx (fst (toDomain env (x, y))) (Fin g) s2))"
          using Inr Some slot g(1)
          by (simp add: run updateEQHandles_inputs split: outcome.splits)
        have "fi_gain (inputs ?out) = fi_gain (inputs s2) \<or>
              fi_gain (inputs ?out) = (fi_gain (inputs s2))[idx := Fin g]"
          using fillSlot_gain[of idx "fst (toDomain env (x, y))" "Fin g" s2] out by simp
        then show ?thesis using base g(2,3) by blast
      qed
    qed
  qed
qed

lemma curve_at_500:
  "curveAt phone_env phone_state 500 = Inr (Some (Fin (3 * 480 / 980)))"
  by (simp add: curveAt_def getEQPhoneObj_def phone_env_def phone_state_def demo_env_def
        idle_state_def samplePhoneCurveAt_def demo_phone_def activeCurveData_def js_nth_def
        interpolate_def jsub_def Let_def)

lemma toDomain_demo: "toDomain phone_env (500, 100) = (500, 100)"
  by (simp add: toDomain_def phone_env_def demo_env_def Let_def)

text \<open>No other handler touches a gain field.\<close>

lemma other_handlers_keep_gain:
  "fi_gain (inputs (final (wheel i shiftKey deltaY s))) = fi_gain (inputs s)"
  "fi_gain (inputs (final (cycleFilterType i s))) = fi_gain (inputs s)"
  "fi_gain (inputs (final (whiskerDrag env sd k ev_x s))) = fi_gain (inputs s)"
  "fi_gain (inputs (final (updateEQHandles env s))) = fi_gain (inputs s)"
  "fi_gain (inputs (final (enable env s))) = fi_gain (inputs s)"
  "fi_gain (inputs (disable s)) = fi_gain (inputs s)"
  "fi_gain (inputs (snd (onMove cx cy (g, s)))) = fi_gain (inputs s)"
  "fi_gain (inputs (onUp (g, s))) = fi_gain (inputs s)"
  by (simp_all add: wheel_def cycleFilterType_def whiskerDrag_def updateEQHandles_inputs
        enable_def disable_def onMove_def onUp_def set_at_def Let_def
        split: option.splits)

text \<open>
  The curve with a doubled last sample, read above its range: \<^verbatim>\<open>t\<close> is
  \<^verbatim>\<open>1000 / 0 = Infinity\<close>, \<^verbatim>\<open>t * 0\<close> is \<^verbatim>\<open>NaN\<close>, and so is the gain, which the
  clamp passes on.
\<close>

lemma tail_curve: "curveAt tail_env tail_state 2000 = Inr (Some NaN)"
  by (simp add: curveAt_def getEQPhoneObj_def tail_env_def tail_state_def demo_env_def
        idle_state_def samplePhoneCurveAt_def tail_phone_def activeCurveData_def js_nth_def
        interpolate_def jsub_def jinf_def Let_def)

lemma tail_domain: "toDomain tail_env (2000, 5) = (2000, 5)"
  by (simp add: toDomain_def tail_env_def demo_env_def Let_def)

lemma tail_gain: "gainFor tail_env 5 (Some NaN) = NaN"
  by (simp add: gainFor_def jsub_def)

lemma tail_drag:
  "dragFrame tail_env (0, 2000, 5) tail_state =
     Returns (tail_state\<lparr>inputs := (inputs tail_state)\<lparr>fi_freq := [Fin 2000], fi_gain := [NaN]\<rparr>\<rparr>)"
  apply (simp add: dragFrame_def tail_domain curveAt_pendingFrame tail_curve tail_gain Let_def)
  apply (simp add: set_at_def tail_state_def idle_state_def)
  done

lemma tail_select: "selectFirstPhone tail_env tail_state = tail_state"
  by (simp add: selectFirstPhone_def tail_state_def)

lemma tail_pick:
  "pickSlot tail_env tail_state =
     Some (1, tail_state\<lparr>bands := 2,
                inputs := \<lparr>fi_enabled = [True, True], fi_type = [''PK'', ''PK''],
                           fi_freq = [Fin 1000, Fin 0], fi_gain = [Fin 0, Fin 0],
                           fi_q = [Fin 1, Fin 1]\<rparr>\<rparr>)"
  by (simp add: pickSlot_def tail_env_def tail_state_def demo_env_def idle_state_def
        hostFilters_def finite_value_def freq_unassigned_def hostResize_def resize_def Let_def)

lemma tail_fill:
  "fillSlot 1 2000 NaN
     (tail_state\<lparr>bands := 2,
                inputs := \<lparr>fi_enabled = [True, True], fi_type = [''PK'', ''PK''],
                           fi_freq = [Fin 1000, Fin 0], fi_gain = [Fin 0, Fin 0],
                           fi_q = [Fin 1, Fin 1]\<rparr>\<rparr>) =
   Returns (tail_state\<lparr>bands := 2,
                inputs := \<lparr>fi_enabled = [True, True], fi_type = [''PK'', ''PK''],
                           fi_freq = [Fin 1000, Fin 2000], fi_gain = [Fin 0, NaN],
                           fi_q = [Fin 1, Fin 1]\<rparr>,
                applyEQ_calls := 1\<rparr>)"
  by (simp add: fillSlot_def set_at_def tail_state_def idle_state_def Let_def)

text \<open>
  The click on that chart at 2000 Hz: it adds a second band, fills it, and hands the state
  to \<^verbatim>\<open>updateEQHandles\<close>.
\<close>

lemma tail_click:
  "handleGraphClick tail_env 2000 5 tail_state =
     updateEQHandles tail_env (tail_state\<lparr>bands := 2,
                inputs := \<lparr>fi_enabled = [True, True], fi_type = [''PK'', ''PK''],
                           fi_freq = [Fin 1000, Fin 2000], fi_gain = [Fin 0, NaN],
                           fi_q = [Fin 1, Fin 1]\<rparr>,
                applyEQ_calls := 1\<rparr>)"
proof -
  have guard: "enabled tail_state" "\<not> isDragging tail_state" "\<not> justDeletedFilter tail_state"
    by (simp_all add: tail_state_def idle_state_def)
  have inside: "toSvgPoint tail_env (2000, 5) = (2000, 5)" "pad_l tail_env = 0"
    "geometry_W tail_env = 30000" "pad_t tail_env = - 100" "geometry_H tail_env = 200"
    by (simp_all add: tail_env_def demo_env_def)
  show ?thesis
    unfolding handleGraphClick_def Let_def tail_domain tail_select
    by (simp add: guard inside tail_curve tail_gain tail_pick tail_fill[unfolded One_nat_def])
qed

section \<open>Lemmas: listeners\<close>

lemma remove_added:
  "removeEventListener r (addEventListener r rs) = removeEventListener r rs"
  by (simp add: removeEventListener_def addEventListener_def)

lemma remove_added_other:
  "removeEventListener r (addEventListener r' rs) =
     (if r = r' then removeEventListener r rs else addEventListener r' (removeEventListener r rs))"
  by (simp add: removeEventListener_def addEventListener_def)

lemma remove_twice: "removeEventListener r (removeEventListener r rs) = removeEventListener r rs"
  by (simp add: removeEventListener_def)

lemma remove_commute:
  "removeEventListener r (removeEventListener r' rs) = removeEventListener r' (removeEventListener r rs)"
  by (simp add: removeEventListener_def removeAll_filter_not_eq) (metis filter_filter conj_commute)

lemma selection_on_off:
  "selection_on t None (selection_on t l reg) = selection_on t None reg"
  by (cases l) (simp_all add: selection_on_def Let_def)

lemma selection_off_commute:
  "selection_on t None (selection_on t' (Some h) reg) =
     (if t = t' then selection_on t None reg else selection_on t' (Some h) (selection_on t None reg))"
  by (auto simp add: selection_on_def Let_def conj_commute)

lemma updateEQHandles_keeps:
  "initialized (final (updateEQHandles env s)) = initialized s"
  "svgEl_listeners (final (updateEQHandles env s)) = svgEl_listeners s"
  "document_listeners (final (updateEQHandles env s)) = document_listeners s"
  "interactRect_on (final (updateEQHandles env s)) = interactRect_on s"
  by (simp_all add: updateEQHandles_def Let_def)

lemma cycle_listeners:
  assumes "initialized s"
  shows "listeners (cycle env s) = unregistered (listeners s)"
  using assms
  by (simp add: cycle_def enable_def disable_def listeners_def unregistered_def
        updateEQHandles_keeps remove_added_other remove_added remove_twice
        selection_off_commute selection_on_off)

lemma cycle_initialized: "initialized (cycle env s) = initialized s"
  by (simp add: cycle_def enable_def disable_def updateEQHandles_keeps)

lemma unregistered_idem: "unregistered (unregistered ls) = unregistered ls"
proof -
  obtain sv doc rect where ls: "ls = (sv, doc, rect)" by (cases ls)
  show ?thesis
    unfolding ls unregistered_def removeEventListener_def selection_on_def Let_def
      removeAll_filter_not_eq
    by (simp only: prod.case option.case filter_filter) (simp cong: conj_cong)
qed

lemma cycles_listeners:
  assumes "initialized s"
  shows "listeners ((cycle env ^^ Suc n) s) = unregistered (listeners s)"
proof (induction n)
  case 0
  then show ?case using assms by (simp add: cycle_listeners)
next
  case (Suc n)
  have "initialized ((cycle env ^^ Suc n) s)"
    using assms by (induction n) (simp_all add: cycle_initialized)
  then have "listeners ((cycle env ^^ Suc (Suc n)) s) = unregistered (listeners ((cycle env ^^ Suc n) s))"
    using cycle_listeners[where s = "(cycle env ^^ Suc n) s" and env = env] by simp
  then show ?case using Suc by (simp add: unregistered_idem)
qed

lemma set_addEventListener: "set (addEventListener r rs) = insert r (set rs)"
  by (auto simp: addEventListener_def)

lemma set_removeEventListener: "set (removeEventListener r rs) = set rs - {r}"
  by (auto simp: removeEventListener_def)

lemma set_selection_on:
  "set (selection_on t l reg) =
     {x \<in> set reg. fst x \<noteq> t} \<union> (case l of None \<Rightarrow> {} | Some h \<Rightarrow> {(t, h)})"
  by (cases l) (auto simp: selection_on_def Let_def)

lemma enable_listener_sets:
  assumes "initialized s" and "listeners s' = unregistered (listeners s)" and "initialized s'"
  shows "listener_sets (final (enable env s')) = listener_sets (final (enable env s))"
proof -
  have sv: "svgEl_listeners s' =
      removeEventListener (''touchmove'', preventScrollOnHandles, True)
        (removeEventListener (''touchstart'', preventScrollOnHandles, True) (svgEl_listeners s))"
    and doc: "document_listeners s' =
      removeEventListener (''touchend'', handleTouchEnd, True) (document_listeners s)"
    and rect: "interactRect_on s' =
      selection_on ''touchend.interactive'' None
        (selection_on ''touchstart.interactive'' None
           (selection_on ''click.interactive'' None (interactRect_on s)))"
    using assms(2) by (simp_all add: listeners_def unregistered_def)
  show ?thesis
    using assms(1,3)
    by (auto simp: listener_sets_def enable_def updateEQHandles_keeps sv doc rect
          set_addEventListener set_removeEventListener set_selection_on)
qed

lemma cycles_initialized: "initialized ((cycle env ^^ n) s) = initialized s"
  by (induction n) (simp_all add: cycle_initialized)

section \<open>Lemmas: the data join\<close>

lemma enumerate_nth: "enumerate 0 fs = map (\<lambda>i. (i, fs ! i)) [0..<length fs]"
proof -
  have "enumerate 0 (map (nth fs) [0..<length fs]) = map (\<lambda>i. (i, fs ! i)) [0..<length fs]"
    by (rule enumerate_map_upt)
  then show ?thesis by (simp only: map_nth)
qed

lemma filter_indexed:
  "map fst (filter (\<lambda>(i, f). P f) (map (\<lambda>i. (i, g i)) ns)) = filter (\<lambda>i. P (g i)) ns"
  "map snd (filter (\<lambda>(i, f). P f) (map (\<lambda>i. (i, g i)) ns)) = map g (filter (\<lambda>i. P (g i)) ns)"
  by (induction ns) simp_all

lemma enumerate_filter_keys:
  "map fst (filter (\<lambda>(i, f). P f) (enumerate 0 fs)) = filter (\<lambda>i. P (fs ! i)) [0..<length fs]"
  unfolding enumerate_nth by (rule filter_indexed)

lemma enumerate_filter_data:
  "map snd (filter (\<lambda>(i, f). P f) (enumerate 0 fs)) = map (nth fs) (filter (\<lambda>i. P (fs ! i)) [0..<length fs])"
  unfolding enumerate_nth by (rule filter_indexed)

lemma find_key: "find (\<lambda>h. filterIndex h = i) hs = Some h \<Longrightarrow> filterIndex h = i"
  by (induction hs) (auto split: if_splits)

lemma data_join_keys: "map filterIndex (data_join hs ds) = map fst ds"
  by (induction ds) (auto simp: data_join_def new_handle_def dest: find_key split: option.splits)

lemma data_join_datum: "map datum (data_join hs ds) = map snd ds"
  by (induction ds) (auto simp: data_join_def new_handle_def split: option.splits)

lemma updateEQHandles_handles:
  assumes "enabled s"
  shows "map filterIndex (eqHandles (final (updateEQHandles env s)))
           = map fst (filter (\<lambda>(i, f). freq_assigned f) (enumerate 0 (getFilters env (inputs s))))"
    and "map datum (eqHandles (final (updateEQHandles env s)))
           = map snd (filter (\<lambda>(i, f). freq_assigned f) (enumerate 0 (getFilters env (inputs s))))"
  using assms
  by (simp_all add: updateEQHandles_def Let_def data_join_keys data_join_datum renderHandle_def
        comp_def)

lemma disabled_filters: "getFilters demo_env (inputs disabled_state) =
    [\<lparr>f_disabled = True, f_type = ''PK'', f_freq = Some 1000, f_q = Some 1, f_gain = Some 0\<rparr>]"
  by (simp add: demo_env_def disabled_state_def idle_state_def hostFilters_def finite_value_def)

section \<open>Lemmas: the graph click\<close>

lemma findIndex_lower: "- 1 \<le> findIndex P xs"
  by (induction xs) (auto simp: Let_def)

lemma findIndex_none: "(\<forall>x\<in>set xs. \<not> P x) \<Longrightarrow> findIndex P xs = - 1"
  by (induction xs) (auto simp: Let_def)

lemma findIndex_first:
  assumes "i < length xs" and "P (xs ! i)" and "\<forall>j<i. \<not> P (xs ! j)"
  shows "findIndex P xs = int i"
  using assms
proof (induction xs arbitrary: i)
  case Nil
  then show ?case by simp
next
  case (Cons x xs)
  show ?case
  proof (cases i)
    case 0
    then show ?thesis using Cons.prems by simp
  next
    case (Suc k)
    have "\<not> P x" using Cons.prems(3) Suc by auto
    moreover have "findIndex P xs = int k"
      using Cons.prems Suc by (intro Cons.IH) auto
    ultimately show ?thesis using Suc by (simp add: Let_def)
  qed
qed

lemma fillSlot_has_slot:
  assumes "has_slot idx (inputs s)"
  shows "fillSlot idx f g s =
           Returns (s\<lparr>inputs := slotFilled idx f g (inputs s), applyEQ_calls := applyEQ_calls s + 1\<rparr>)"
  using assms by (simp add: fillSlot_def has_slot_def set_at_def slotFilled_def Let_def)

lemma updateEQHandles_bands: "bands (final (updateEQHandles env s)) = bands s"
  by (simp add: updateEQHandles_def Let_def)

text \<open>A click that passes the guards and whose sampling returns runs the slot choice.\<close>

lemma handleGraphClick_creates:
  assumes "creates env x y s curveY"
  shows "handleGraphClick env x y s =
     (case pickSlot env (selectFirstPhone env s) of
        None \<Rightarrow> Returns (selectFirstPhone env s)
      | Some (idx, s2) \<Rightarrow>
          (case fillSlot idx (fst (toDomain env (x, y)))
                  (gainFor env (snd (toDomain env (x, y))) curveY) s2 of
             Throws e s3 \<Rightarrow> Throws e s3
           | Returns s3 \<Rightarrow> updateEQHandles env s3))"
  using assms unfolding creates_def handleGraphClick_def Let_def by auto

lemma pickSlot_first:
  assumes "i < length (getFilters env (inputs s))"
    and "freq_unassigned (getFilters env (inputs s) ! i)"
    and "\<forall>j<i. \<not> freq_unassigned (getFilters env (inputs s) ! j)"
  shows "pickSlot env s = Some (i, s)"
  using findIndex_first[OF assms] by (simp add: pickSlot_def Let_def)

lemma pickSlot_grow:
  assumes "\<forall>f\<in>set (getFilters env (inputs s)). \<not> freq_unassigned f"
  shows "pickSlot env s =
           (if bands s < getBandsMax env
            then Some (bands s, s\<lparr>bands := bands s + 1,
                                   inputs := updateFilterElements env (bands s + 1) (inputs s)\<rparr>)
            else None)"
  using findIndex_none[OF assms] by (simp add: pickSlot_def Let_def)

lemma selectFirstPhone_fields:
  "inputs (selectFirstPhone env s) = inputs s"
  "bands (selectFirstPhone env s) = bands s"
  "applyEQ_calls (selectFirstPhone env s) = applyEQ_calls s"
  by (simp_all add: selectFirstPhone_def split: option.splits)

lemma creates_demo:
  assumes "enabled s" and "\<not> isDragging s" and "\<not> justDeletedFilter s" and "selectValue s = []"
  shows "creates (demo_env\<lparr>getBandsMax := m\<rparr>) 500 2 s None"
  using assms
  by (simp add: creates_def demo_env_def toDomain_def curveAt_def selectFirstPhone_def js_nth_def
        getEQPhoneObj_def samplePhoneCurveAt_def Let_def)

lemma demo_click_values:
  "fst (toDomain (demo_env\<lparr>getBandsMax := m\<rparr>) (500, 2)) = 500"
  "gainFor (demo_env\<lparr>getBandsMax := m\<rparr>) (snd (toDomain (demo_env\<lparr>getBandsMax := m\<rparr>) (500, 2))) None = Fin 2"
  by (simp_all add: toDomain_def demo_env_def gainFor_def Let_def)

lemma two_row_filters:
  "getFilters (demo_env\<lparr>getBandsMax := m\<rparr>) (inputs two_row_state) =
     [\<lparr>f_disabled = False, f_type = ''PK'', f_freq = Some 1000, f_q = Some 1, f_gain = Some 0\<rparr>,
      \<lparr>f_disabled = False, f_type = ''PK'', f_freq = Some 0, f_q = Some 1, f_gain = Some 0\<rparr>]"
  by (simp add: demo_env_def two_row_state_def idle_state_def hostFilters_def finite_value_def)

lemma idle_filters:
  "getFilters (demo_env\<lparr>getBandsMax := m\<rparr>) (inputs idle_state) =
     [\<lparr>f_disabled = False, f_type = ''PK'', f_freq = Some 1000, f_q = Some 1, f_gain = Some 0\<rparr>]"
  by (simp add: demo_env_def idle_state_def hostFilters_def finite_value_def)

lemma idle_resized:
  "updateFilterElements (demo_env\<lparr>getBandsMax := m\<rparr>) (bands idle_state + 1) (inputs idle_state) =
     \<lparr>fi_enabled = [True, True], fi_type = [''PK'', ''PK''], fi_freq = [Fin 1000, Fin 0],
      fi_gain = [Fin 0, Fin 0], fi_q = [Fin 1, Fin 1]\<rparr>"
  by (simp add: demo_env_def idle_state_def hostResize_def resize_def)

section \<open>Lemmas: the curve sampler\<close>

lemma findIndex_upper: "findIndex P xs < int (length xs)"
  by (induction xs) (auto simp: Let_def)

lemma findIndex_range: "- 1 \<le> findIndex P xs \<and> findIndex P xs < int (length xs)"
  using findIndex_lower[of P xs] findIndex_upper[of P xs] by simp

text \<open>On a sample array the sampler throws exactly if the array (after the baseline) is empty.\<close>

lemma sampler_on_samples:
  assumes "(case activeCurveData p of Absent \<Rightarrow> rawChannelData p | c \<Rightarrow> c) = Samples xs"
  shows "isl (samplePhoneCurveAt bfn off (Some p) freq) \<longleftrightarrow> bfn xs = []"
proof (cases "bfn xs = []")
  case True
  then show ?thesis using assms by (simp add: samplePhoneCurveAt_def js_nth_def Let_def)
next
  case False
  let ?found = "findIndex (\<lambda>d. jge (Fin (fst d)) freq) (bfn xs)"
  let ?idx = "if ?found < 0 then int (length (bfn xs)) - 1 else ?found"
  have len: "0 < length (bfn xs)" using False by simp
  have "- 1 \<le> ?found \<and> ?found < int (length (bfn xs))"
    by (rule findIndex_range)
  then have r: "0 \<le> ?idx \<and> ?idx < int (length (bfn xs))"
    using len by auto
  have body: "\<not> isl
      (if i = 0 then
         (case js_nth (bfn xs) 0 of
            None \<Rightarrow> Inl TypeError
          | Some d \<Rightarrow> Inr (Some (jadd (Fin (snd d)) (Fin (off p)))))
       else
         (case (js_nth (bfn xs) (i - 1), js_nth (bfn xs) i) of
            (Some p1, Some p2) \<Rightarrow> Inr (Some (interpolate p1 p2 freq (off p)))
          | _ \<Rightarrow> Inl TypeError))"
    if "0 \<le> i \<and> i < int (length (bfn xs))" for i
    using that by (auto simp: js_nth_def)
  have "\<not> isl (samplePhoneCurveAt bfn off (Some p) freq)"
    using assms body[OF r] by (simp add: samplePhoneCurveAt_def Let_def)
  then show ?thesis using False by simp
qed

text \<open>Without a phone, without curve data, or with data that is no array, the result is \<^verbatim>\<open>null\<close>.\<close>

lemma sampler_null:
  "samplePhoneCurveAt bfn off None freq = Inr None"
  "(case activeCurveData p of Absent \<Rightarrow> rawChannelData p | c \<Rightarrow> c) = Absent \<Longrightarrow>
     samplePhoneCurveAt bfn off (Some p) freq = Inr None"
  "(case activeCurveData p of Absent \<Rightarrow> rawChannelData p | c \<Rightarrow> c) = NotArray \<Longrightarrow>
     samplePhoneCurveAt bfn off (Some p) freq = Inr None"
  by (simp_all add: samplePhoneCurveAt_def Let_def)

text \<open>
  A curve whose last two samples have the same frequency and level, sampled above its
  range: \<^verbatim>\<open>t\<close> is \<^verbatim>\<open>100 / 0 = Infinity\<close>, \<^verbatim>\<open>t * 0\<close> is \<^verbatim>\<open>NaN\<close>, and so are the level
  and the gain computed from it, which the clamp passes on.
\<close>

lemma sampler_nan_example:
  "samplePhoneCurveAt (\<lambda>l. l) (\<lambda>p. 0)
     (Some \<lparr>isPrefBounds = False, fullName = ''A B'', activeCurves = None,
            rawChannels = Some [Samples [(100, 1), (100, 1)]]\<rparr>) (Fin 200)
   = Inr (Some NaN)"
  "gainFor env 0 (Some NaN) = NaN"
  by (simp_all add: samplePhoneCurveAt_def activeCurveData_def rawChannelData_def js_nth_def
        interpolate_def jsub_def jinf_def gainFor_def Let_def)

section \<open>C1: the curve sampler on an empty sample array\<close>

text \<open>
  C1. The claim: the sampler never throws, and returns \<^verbatim>\<open>null\<close> for a phone whose sample
  array is empty. The source guards a missing phone, a missing curve and a value that is not
  an array, but not the empty array: there \<^verbatim>\<open>findIndex\<close> gives \<open>-1\<close>, the index becomes
  \<^verbatim>\<open>data.length - 1 = -1\<close>, and \<^verbatim>\<open>data[-2][0]\<close> reads a property of \<^verbatim>\<open>undefined\<close>.
  The theorem evaluates the sampler on a phone whose first raw channel is the empty array,
  with the identity baseline: it throws. (By \<open>sampler_on_samples\<close> the empty array is the
  only sample array on which it throws, and by \<open>sampler_null\<close> the guarded cases do
  return \<^verbatim>\<open>null\<close>.)
\<close>

theorem samplePhoneCurveAt_empty_array_throws:
  "samplePhoneCurveAt (\<lambda>l. l) (\<lambda>p. 0)
     (Some \<lparr>isPrefBounds = False, fullName = ''A B'', activeCurves = None,
            rawChannels = Some [Samples []]\<rparr>) (Fin 1000)
   = Inl TypeError"
  by (simp add: samplePhoneCurveAt_def activeCurveData_def rawChannelData_def js_nth_def)

section \<open>C2: one handle per filter with a frequency\<close>

text \<open>
  C2, as stated: handles are rendered for the filters that are enabled and have a frequency
  above zero, so a disabled filter gets no handle. \<^verbatim>\<open>updateEQHandles\<close> filters on
  \<^verbatim>\<open>f.freq && f.freq > 0\<close> alone and marks the handle of a disabled filter with the class
  \<^verbatim>\<open>disabled\<close>: a host whose only filter is switched off and sits at 1000 Hz gets the
  handle with key 0, of class \<^verbatim>\<open>disabled\<close>, where the claim's key list is empty.
\<close>

theorem disabled_filter_has_handle_counterexample:
  "map filterIndex (eqHandles (final (updateEQHandles demo_env disabled_state))) = [0]
   \<and> map cls_disabled (eqHandles (final (updateEQHandles demo_env disabled_state))) = [True]
   \<and> spec_handle_keys (getFilters demo_env (inputs disabled_state)) = []"
proof -
  have en: "enabled disabled_state" by (simp add: disabled_state_def idle_state_def)
  have ph: "getEQPhoneObj demo_env disabled_state = None"
    by (simp add: getEQPhoneObj_def disabled_state_def idle_state_def)
  have hs: "eqHandles disabled_state = []" by (simp add: disabled_state_def idle_state_def)
  show ?thesis
    by (simp add: updateEQHandles_def en ph hs disabled_filters Let_def freq_assigned_def
          enumerate_simps data_join_def new_handle_def handleLevel_def samplePhoneCurveAt_def
          renderHandle_def spec_handle_keys_def)
qed

text \<open>
  C2, amended. With the module enabled, the handles after \<^verbatim>\<open>updateEQHandles\<close> are, in
  order and keyed by \<^verbatim>\<open>filterIndex\<close>, exactly the indices of the host's filters with a
  frequency above zero, whatever handles there were before, each bound to its filter; when
  the call returns, a handle carries the class \<^verbatim>\<open>disabled\<close> exactly if its filter is
  disabled. With the module disabled there is no handle.
\<close>

theorem handles_match_assigned_filters:
  "(enabled s \<longrightarrow>
      map filterIndex (eqHandles (final (updateEQHandles env s)))
        = filter (\<lambda>i. freq_assigned (getFilters env (inputs s) ! i))
            [0..<length (getFilters env (inputs s))]
      \<and> map datum (eqHandles (final (updateEQHandles env s)))
        = map (nth (getFilters env (inputs s)))
            (filter (\<lambda>i. freq_assigned (getFilters env (inputs s) ! i))
               [0..<length (getFilters env (inputs s))])
      \<and> (returns (updateEQHandles env s) \<longrightarrow>
           map cls_disabled (eqHandles (final (updateEQHandles env s)))
             = map f_disabled (map datum (eqHandles (final (updateEQHandles env s))))))
   \<and> (\<not> enabled s \<longrightarrow> eqHandles (final (updateEQHandles env s)) = [])"
proof (intro conjI impI)
  assume "enabled s"
  then show "map filterIndex (eqHandles (final (updateEQHandles env s)))
        = filter (\<lambda>i. freq_assigned (getFilters env (inputs s) ! i))
            [0..<length (getFilters env (inputs s))]"
    using updateEQHandles_handles(1)[of s env] by (simp add: enumerate_filter_keys)
next
  assume "enabled s"
  then show "map datum (eqHandles (final (updateEQHandles env s)))
        = map (nth (getFilters env (inputs s)))
            (filter (\<lambda>i. freq_assigned (getFilters env (inputs s) ! i))
               [0..<length (getFilters env (inputs s))])"
    using updateEQHandles_handles(2)[of s env] by (simp add: enumerate_filter_data)
next
  assume "enabled s" and "returns (updateEQHandles env s)"
  then show "map cls_disabled (eqHandles (final (updateEQHandles env s)))
             = map f_disabled (map datum (eqHandles (final (updateEQHandles env s))))"
    by (simp add: updateEQHandles_def Let_def renderHandle_def comp_def split: if_splits)
next
  assume "\<not> enabled s"
  then show "eqHandles (final (updateEQHandles env s)) = []"
    by (simp add: updateEQHandles_def)
qed

theorem handles_match_assigned_filters_witness:
  "map filterIndex (eqHandles (final (updateEQHandles demo_env disabled_state))) = [0]
   \<and> map datum (eqHandles (final (updateEQHandles demo_env disabled_state)))
       = [\<lparr>f_disabled = True, f_type = ''PK'', f_freq = Some 1000, f_q = Some 1, f_gain = Some 0\<rparr>]
   \<and> eqHandles (final (updateEQHandles demo_env (disabled_state\<lparr>enabled := False\<rparr>))) = []"
  using handles_match_assigned_filters[of disabled_state demo_env]
        handles_match_assigned_filters[of "disabled_state\<lparr>enabled := False\<rparr>" demo_env]
  by (simp add: disabled_filters freq_assigned_def)
     (simp add: disabled_state_def idle_state_def)

section \<open>C3: the gain written is clamped\<close>

text \<open>
  C3. The claim: both paths that write a gain field, the animation frame of a drag and
  \<^verbatim>\<open>handleGraphClick\<close>, clamp the value before the write, so that for every pointer input
  the stored gain is in \<open>[-40, 40]\<close>. Both compute the gain as the pointer's level minus the
  sampled curve level and clamp it with \<^verbatim>\<open>Math.max(-40, Math.min(40, newGain))\<close>, which
  returns \<^verbatim>\<open>NaN\<close> for \<^verbatim>\<open>NaN\<close>. The theorem evaluates both paths with the selected phone's
  curve \<open>[[20, 0], [1000, 3], [1000, 3]]\<close> and the pointer at 2000 Hz, level 5: the sampler
  extrapolates from the last two samples, divides by their distance 0 and returns \<^verbatim>\<open>NaN\<close>;
  the drag frame stores \<^verbatim>\<open>NaN\<close> as the gain of the dragged filter, the click as the gain
  of the filter it creates.
\<close>

theorem gain_write_stores_nan:
  "curveAt tail_env tail_state 2000 = Inr (Some NaN)
   \<and> dragFrame tail_env (0, 2000, 5) tail_state =
       Returns (tail_state\<lparr>inputs := (inputs tail_state)\<lparr>fi_freq := [Fin 2000], fi_gain := [NaN]\<rparr>\<rparr>)
   \<and> inputs (final (handleGraphClick tail_env 2000 5 tail_state)) =
       \<lparr>fi_enabled = [True, True], fi_type = [''PK'', ''PK''],
        fi_freq = [Fin 1000, Fin 2000], fi_gain = [Fin 0, NaN], fi_q = [Fin 1, Fin 1]\<rparr>"
  using tail_curve tail_drag tail_click by (simp add: updateEQHandles_inputs)

text \<open>On that input neither stored gain is a number of \<open>[-40, 40]\<close>.\<close>

theorem gain_write_stores_nan_witness:
  "\<not> (\<exists>g. fi_gain (inputs (final (dragFrame tail_env (0, 2000, 5) tail_state))) ! 0 = Fin g
          \<and> - 40 \<le> g \<and> g \<le> 40)
   \<and> \<not> (\<exists>g. fi_gain (inputs (final (handleGraphClick tail_env 2000 5 tail_state))) ! 1 = Fin g
          \<and> - 40 \<le> g \<and> g \<le> 40)"
  using gain_write_stores_nan by simp

text \<open>
  \<^verbatim>\<open>NaN\<close> is the only level the clamp lets through. For every pointer position, chart,
  host and state: if the curve level sampled at the pointer's frequency is \<^verbatim>\<open>null\<close> or any
  number other than \<^verbatim>\<open>NaN\<close> (an infinity included), the gain array after the call is the
  one before (as the host's resizing left it, for a click that adds a band), unchanged or
  with one element replaced by a finite value in \<open>[-40, 40]\<close>; and no other handler of the
  model writes a gain field.
\<close>

lemma gain_clamped_unless_nan:
  "(curveAt env s (fst (toDomain env (cx, cy))) \<noteq> Inr (Some NaN) \<longrightarrow>
      fi_gain (inputs (final (dragFrame env (idx, cx, cy) s))) = fi_gain (inputs s) \<or>
      (\<exists>g. fi_gain (inputs (final (dragFrame env (idx, cx, cy) s))) = (fi_gain (inputs s))[idx := Fin g]
           \<and> - 40 \<le> g \<and> g \<le> 40))
   \<and> (curveAt env (selectFirstPhone env s) (fst (toDomain env (x, y))) \<noteq> Inr (Some NaN) \<longrightarrow>
        (\<exists>base. (base = inputs s \<or> base = updateFilterElements env (bands s + 1) (inputs s)) \<and>
           (fi_gain (inputs (final (handleGraphClick env x y s))) = fi_gain base \<or>
            (\<exists>i g. fi_gain (inputs (final (handleGraphClick env x y s))) = (fi_gain base)[i := Fin g]
                 \<and> - 40 \<le> g \<and> g \<le> 40))))
   \<and> fi_gain (inputs (final (wheel idx shiftKey deltaY s))) = fi_gain (inputs s)
   \<and> fi_gain (inputs (final (cycleFilterType idx s))) = fi_gain (inputs s)
   \<and> fi_gain (inputs (final (whiskerDrag env sd idx ev_x s))) = fi_gain (inputs s)
   \<and> fi_gain (inputs (final (updateEQHandles env s))) = fi_gain (inputs s)
   \<and> fi_gain (inputs (final (enable env s))) = fi_gain (inputs s)
   \<and> fi_gain (inputs (disable s)) = fi_gain (inputs s)
   \<and> fi_gain (inputs (snd (onMove cx cy (g, s)))) = fi_gain (inputs s)
   \<and> fi_gain (inputs (onUp (g, s))) = fi_gain (inputs s)"
proof (intro conjI impI)
  assume "curveAt env s (fst (toDomain env (cx, cy))) \<noteq> Inr (Some NaN)"
  then show "fi_gain (inputs (final (dragFrame env (idx, cx, cy) s))) = fi_gain (inputs s) \<or>
      (\<exists>g. fi_gain (inputs (final (dragFrame env (idx, cx, cy) s))) = (fi_gain (inputs s))[idx := Fin g]
           \<and> - 40 \<le> g \<and> g \<le> 40)"
    by (rule dragFrame_gain)
next
  assume "curveAt env (selectFirstPhone env s) (fst (toDomain env (x, y))) \<noteq> Inr (Some NaN)"
  then show "\<exists>base. (base = inputs s \<or> base = updateFilterElements env (bands s + 1) (inputs s)) \<and>
           (fi_gain (inputs (final (handleGraphClick env x y s))) = fi_gain base \<or>
            (\<exists>i g. fi_gain (inputs (final (handleGraphClick env x y s))) = (fi_gain base)[i := Fin g]
                 \<and> - 40 \<le> g \<and> g \<le> 40))"
    by (rule handleGraphClick_gain)
qed (simp_all only: other_handlers_keep_gain)

lemma gain_clamped_unless_nan_example:
  "(fi_gain (inputs (final (dragFrame phone_env (0, 500, 100) phone_state)))
      = fi_gain (inputs phone_state) \<or>
    (\<exists>g. fi_gain (inputs (final (dragFrame phone_env (0, 500, 100) phone_state)))
           = (fi_gain (inputs phone_state))[0 := Fin g] \<and> - 40 \<le> g \<and> g \<le> 40))
   \<and> (\<exists>base. (base = inputs phone_state \<or>
                  base = updateFilterElements phone_env (bands phone_state + 1) (inputs phone_state)) \<and>
          (fi_gain (inputs (final (handleGraphClick phone_env 500 100 phone_state))) = fi_gain base \<or>
           (\<exists>i g. fi_gain (inputs (final (handleGraphClick phone_env 500 100 phone_state)))
                   = (fi_gain base)[i := Fin g] \<and> - 40 \<le> g \<and> g \<le> 40)))"
proof -
  have sel: "selectFirstPhone phone_env phone_state = phone_state"
    by (simp add: selectFirstPhone_def phone_state_def)
  have ok: "curveAt phone_env phone_state (fst (toDomain phone_env (500, 100))) \<noteq> Inr (Some NaN)"
    by (simp add: toDomain_demo curve_at_500)
  note paths = gain_clamped_unless_nan[where env = phone_env and s = phone_state and cx = 500
      and cy = 100 and idx = 0 and x = 500 and y = 100]
  show ?thesis
    using paths[THEN conjunct1] paths[THEN conjunct2, THEN conjunct1] ok
    unfolding sel by blast
qed

text \<open>What the two paths store on that input: the gain 100 - 1.469 clamped to 40.\<close>

lemma gain_clamp_example:
  "fi_gain (inputs (final (dragFrame phone_env (0, 500, 100) phone_state))) = [Fin 40]"
  apply (simp add: dragFrame_def toDomain_demo curve_at_500 curveAt_pendingFrame Let_def)
  apply (simp add: gainFor_def jsub_def round_def set_at_def phone_state_def idle_state_def)
  done

section \<open>C4: the round trip of the bandwidth formulas\<close>

text \<open>
  C4. For a centre frequency \<open>f0 > 0\<close> and a Q in \<open>[0.1, 10]\<close>, the edges computed from Q,
  given back to the whisker drag's formulas as the dragged right edge or as the dragged left
  edge, yield Q rounded to two decimals, the stored precision: a value within 0.005 of Q.
  Nothing is rejected on the way and the clamp to \<open>[0.1, 10]\<close> does not act. (The drag
  handler first clamps the dragged edge to the axis \<open>[20, 20000]\<close>; the formulas are the
  claim's, on the edge as computed.)
\<close>

theorem bandwidth_round_trip:
  assumes "0 < f0" and "1/10 \<le> q" and "q \<le> 10"
  shows "qFromEdge f0 (snd (edgesFromQ f0 q)) SideRight = Some (of_int (round (q * 100)) / 100)
       \<and> qFromEdge f0 (fst (edgesFromQ f0 q)) SideLeft = Some (of_int (round (q * 100)) / 100)
       \<and> \<bar>of_int (round (q * 100)) / 100 - q\<bar> \<le> 1/200"
proof -
  define bw where "bw = 2 * arsinh (1 / (2 * q)) / ln 2"
  define r where "r = 2 powr (bw / 2)"
  have q0: "0 < q" using assms(2) by simp
  have r1: "1 < r" unfolding r_def bw_def using band_ratio(1)[OF q0] .
  have lg: "log 2 (r * r) = bw" unfolding r_def bw_def using band_ratio(2)[OF q0] .
  have edges: "edgesFromQ f0 q = (f0 / r, f0 * r)"
    by (simp add: edgesFromQ_def Let_def r_def bw_def)
  have newQ: "1 / (2 * sinh (log 2 (r * r) * ln 2 / 2)) = q"
    unfolding lg bw_def using sinh_half_band[OF q0] .
  have val: "max (1/10) (min 10 (of_int (round (1 / (2 * sinh (log 2 (r * r) * ln 2 / 2)) * 100)) / 100))
               = of_int (round (q * 100)) / (100::real)"
    unfolding newQ using round_q_in_range[OF assms(2,3)] .
  show ?thesis
    unfolding edges fst_conv snd_conv
    using qFromEdge_band[OF assms(1) r1] val round_q_close[of q] by simp
qed

theorem bandwidth_round_trip_witness:
  "qFromEdge 1000 (snd (edgesFromQ 1000 1)) SideRight = Some 1
   \<and> qFromEdge 1000 (fst (edgesFromQ 1000 1)) SideLeft = Some 1"
  using bandwidth_round_trip[of 1000 1] by simp

section \<open>C5: a degenerate whisker drag writes nothing\<close>

text \<open>
  C5. A frame of a whisker drag whose reconstructed edges cross (\<open>fHigh \<le> fLow\<close>), whose
  low edge is not positive, or whose bandwidth is not positive, returns with the state as it
  was: no field, datum or attribute is written. And a frame that does write stores a finite
  Q between 0.1 and 10.
\<close>

theorem whiskerDrag_degenerate_no_write:
  "(find (\<lambda>h. filterIndex h = k) (eqHandles s) = Some h \<and>
    (let freq = or_default (f_freq (datum h)) 1000;
         newFreqEdge = max 20 (min 20000 (scales_x_invert env (ev_x + scales_x env freq)));
         fLow = fst (dragEdges freq newFreqEdge sd);
         fHigh = snd (dragEdges freq newFreqEdge sd)
     in fHigh \<le> fLow \<or> fLow \<le> 0 \<or> log 2 (fHigh / fLow) \<le> 0)
    \<longrightarrow> whiskerDrag env sd k ev_x s = Returns s)
   \<and> (final (whiskerDrag env sd k ev_x s) = s \<or>
        (\<exists>v. fi_q (inputs (final (whiskerDrag env sd k ev_x s))) = (fi_q (inputs s))[k := Fin v]
             \<and> 1/10 \<le> v \<and> v \<le> 10))"
proof (intro conjI impI)
  assume a: "find (\<lambda>h. filterIndex h = k) (eqHandles s) = Some h \<and>
    (let freq = or_default (f_freq (datum h)) 1000;
         newFreqEdge = max 20 (min 20000 (scales_x_invert env (ev_x + scales_x env freq)));
         fLow = fst (dragEdges freq newFreqEdge sd);
         fHigh = snd (dragEdges freq newFreqEdge sd)
     in fHigh \<le> fLow \<or> fLow \<le> 0 \<or> log 2 (fHigh / fLow) \<le> 0)"
  define freq where "freq = or_default (f_freq (datum h)) 1000"
  define e where "e = max 20 (min 20000 (scales_x_invert env (ev_x + scales_x env freq)))"
  have deg: "snd (dragEdges freq e sd) \<le> fst (dragEdges freq e sd) \<or> fst (dragEdges freq e sd) \<le> 0
             \<or> log 2 (snd (dragEdges freq e sd) / fst (dragEdges freq e sd)) \<le> 0"
    using a unfolding freq_def e_def Let_def by blast
  have "qFromEdge freq e sd = None"
  proof (cases "snd (dragEdges freq e sd) \<le> fst (dragEdges freq e sd) \<or> fst (dragEdges freq e sd) \<le> 0")
    case True
    then show ?thesis by (simp add: qFromEdge_def Let_def)
  next
    case False
    then have "log 2 (snd (dragEdges freq e sd) / fst (dragEdges freq e sd)) \<le> 0"
      using deg by blast
    then show ?thesis using False by (simp add: qFromEdge_def Let_def)
  qed
  then show "whiskerDrag env sd k ev_x s = Returns s"
    using a unfolding whiskerDrag_def Let_def freq_def e_def by simp
next
  show "final (whiskerDrag env sd k ev_x s) = s \<or>
        (\<exists>v. fi_q (inputs (final (whiskerDrag env sd k ev_x s))) = (fi_q (inputs s))[k := Fin v]
             \<and> 1/10 \<le> v \<and> v \<le> 10)"
    using whiskerDrag_cases[of env sd k ev_x s] qFromEdge_on_grid by blast
qed

theorem whiskerDrag_degenerate_no_write_witness:
  "whiskerDrag demo_env SideRight 0 (- 500) handle_state = Returns handle_state"
  using whiskerDrag_degenerate_no_write
          [of 0 handle_state "new_handle 0 demo_filter" demo_env "- 500" SideRight]
  by (simp add: handle_state_def idle_state_def new_handle_def demo_filter_def demo_env_def
        or_default_def dragEdges_def Let_def)

section \<open>C6: the drag threshold\<close>

text \<open>
  C6. A gesture on a handle is pointer-down, then moves and animation frames, then
  pointer-up. If no frame of an earlier gesture is still pending at pointer-down and every
  move stays strictly within 5 pixels of the pointer-down position, the input fields are
  after pointer-up what they were, and \<^verbatim>\<open>applyEQ\<close> has not been called. Conversely, once a
  move is 5 pixels or more away, the gesture is a drag whatever follows, and (the module
  being enabled) pointer-up calls \<^verbatim>\<open>applyEQ\<close> exactly once.
\<close>

theorem drag_threshold:
  "(pendingFrame s = None \<and> (\<forall>ev\<in>set evs. within_threshold x0 y0 ev) \<longrightarrow>
      inputs (gesture env idx x0 y0 evs s) = inputs s \<and>
      applyEQ_calls (gesture env idx x0 y0 evs s) = applyEQ_calls s)
   \<and> (\<not> within_threshold (startX g) (startY g) (Move cx cy) \<longrightarrow>
        moved (fst (foldl (drag_step env) (g, s) (pre @ Move cx cy # post))))
   \<and> (enabled s \<and> \<not> within_threshold x0 y0 (Move cx cy) \<longrightarrow>
        applyEQ_calls (gesture env idx x0 y0 (pre @ Move cx cy # post) s) = applyEQ_calls s + 1)"
proof (intro conjI impI)
  assume a: "pendingFrame s = None \<and> (\<forall>ev\<in>set evs. within_threshold x0 y0 ev)"
  let ?g = "\<lparr>drag_filterIndex = idx, startX = x0, startY = y0, moved = False\<rparr>"
  let ?s = "s\<lparr>isDragging := True, wasDragged := False\<rparr>"
  have still: "foldl (drag_step env) (?g, ?s) evs = (?g, ?s)"
    using a by (intro fold_within) simp_all
  show "inputs (gesture env idx x0 y0 evs s) = inputs s"
  proof (cases "enabled s")
    case True
    then show ?thesis by (simp add: gesture_enabled still onUp_def)
  next
    case False
    then show ?thesis by (simp add: gesture_def startDrag_def)
  qed
  show "applyEQ_calls (gesture env idx x0 y0 evs s) = applyEQ_calls s"
  proof (cases "enabled s")
    case True
    then show ?thesis by (simp add: gesture_enabled still onUp_def)
  next
    case False
    then show ?thesis by (simp add: gesture_def startDrag_def)
  qed
next
  assume "\<not> within_threshold (startX g) (startY g) (Move cx cy)"
  then show "moved (fst (foldl (drag_step env) (g, s) (pre @ Move cx cy # post)))"
    by (rule fold_beyond)
next
  assume c: "enabled s \<and> \<not> within_threshold x0 y0 (Move cx cy)"
  let ?g = "\<lparr>drag_filterIndex = idx, startX = x0, startY = y0, moved = False\<rparr>"
  let ?s = "s\<lparr>isDragging := True, wasDragged := False\<rparr>"
  let ?evs = "pre @ Move cx cy # post"
  have m: "moved (fst (foldl (drag_step env) (?g, ?s) ?evs))"
    using c by (intro fold_beyond) simp
  have n: "applyEQ_calls (snd (foldl (drag_step env) (?g, ?s) ?evs)) = applyEQ_calls s"
    using fold_applyEQ[of env "(?g, ?s)" ?evs] by simp
  obtain g3 s3 where fin: "foldl (drag_step env) (?g, ?s) ?evs = (g3, s3)"
    by (cases "foldl (drag_step env) (?g, ?s) ?evs")
  show "applyEQ_calls (gesture env idx x0 y0 ?evs s) = applyEQ_calls s + 1"
    using c m n fin by (simp add: gesture_enabled onUp_def)
qed

theorem drag_threshold_witness:
  "inputs (gesture demo_env 0 100 100 [Move 101 102, Frame, Move 103 100] idle_state)
     = inputs idle_state
   \<and> applyEQ_calls (gesture demo_env 0 100 100 [Move 101 102, Frame, Move 103 100] idle_state) = 0
   \<and> moved (fst (foldl (drag_step demo_env)
        (\<lparr>drag_filterIndex = 0, startX = 100, startY = 100, moved = False\<rparr>, idle_state)
        [Move 101 100, Move 110 100, Frame, Move 100 100]))
   \<and> applyEQ_calls
        (gesture demo_env 0 100 100 [Move 101 100, Move 110 100, Frame, Move 100 100] idle_state) = 1"
  using drag_threshold
          [of idle_state "[Move 101 102, Frame, Move 103 100]" 100 100 demo_env 0
              "\<lparr>drag_filterIndex = 0, startX = 100, startY = 100, moved = False\<rparr>" 110 100
              "[Move 101 100]" "[Frame, Move 100 100]"]
  by (simp add: idle_state_def hypot_less_5)

section \<open>C7: the precision of a stored Q\<close>

text \<open>
  C7, as stated: a Q produced by a gesture (a wheel step or a whisker drag) is stored rounded
  to two decimals in coarse mode and to three in fine mode, then clamped to \<open>[0.1, 10]\<close>.
  The wheel handler rounds with \<^verbatim>\<open>precision = shiftKey ? 100 : 10\<close>, one decimal in coarse
  mode and two in fine mode, and the whisker drag with \<^verbatim>\<open>Math.round(newQ * 100) / 100\<close>
  whatever key is held. On a field holding 1.234, a coarse tick up produces 1.334 and stores
  1.3, where two decimals give 1.33; a fine tick up produces 1.244 and stores 1.24, where
  three decimals give 1.244. The right whisker of a filter at 1000 Hz taken to 2000 Hz
  produces the Q 2/3 and stores 0.67, where three decimals give 0.667.
\<close>

theorem q_precision_counterexample:
  "fi_q (inputs (final (wheel 0 False (- 1) (q_state (Fin (1234/1000)))))) = [Fin (13/10)]
   \<and> spec_stored_q False (1234/1000 + 1/10) = 133/100
   \<and> fi_q (inputs (final (wheel 0 False (- 1) (q_state (Fin (1234/1000)))))) ! 0
       \<noteq> Fin (spec_stored_q False (1234/1000 + 1/10))
   \<and> fi_q (inputs (final (wheel 0 True (- 1) (q_state (Fin (1234/1000)))))) = [Fin (124/100)]
   \<and> spec_stored_q True (1234/1000 + 1/100) = 1244/1000
   \<and> fi_q (inputs (final (wheel 0 True (- 1) (q_state (Fin (1234/1000)))))) ! 0
       \<noteq> Fin (spec_stored_q True (1234/1000 + 1/100))
   \<and> bandQ (fst (dragBand demo_env (new_handle 0 demo_filter) SideRight 1000))
            (snd (dragBand demo_env (new_handle 0 demo_filter) SideRight 1000)) = 2/3
   \<and> fi_q (inputs (final (whiskerDrag demo_env SideRight 0 1000 handle_state))) = [Fin (67/100)]
   \<and> spec_stored_q True (2/3) = 667/1000
   \<and> fi_q (inputs (final (whiskerDrag demo_env SideRight 0 1000 handle_state))) ! 0
       \<noteq> Fin (spec_stored_q True (2/3))"
proof -
  have coarse: "fi_q (inputs (final (wheel 0 False (- 1) (q_state (Fin (1234/1000)))))) = [Fin (13/10)]"
    by (simp add: wheel_def q_state_def idle_state_def js_nth_def js_or_def round_def)
  have fine: "fi_q (inputs (final (wheel 0 True (- 1) (q_state (Fin (1234/1000)))))) = [Fin (124/100)]"
    by (simp add: wheel_def q_state_def idle_state_def js_nth_def js_or_def round_def)
  have band: "bandQ (fst (dragBand demo_env (new_handle 0 demo_filter) SideRight 1000))
            (snd (dragBand demo_env (new_handle 0 demo_filter) SideRight 1000)) = 2/3"
    by (simp add: demo_drag_band demo_band_q)
  have drag: "fi_q (inputs (final (whiskerDrag demo_env SideRight 0 1000 handle_state))) = [Fin (67/100)]"
    using whiskerDrag_writes(2)[of 0 handle_state "new_handle 0 demo_filter" demo_env SideRight 1000]
    by (simp add: demo_handle demo_drag_band demo_band_q round_examples)
  show ?thesis
    unfolding coarse fine band drag spec_examples by simp
qed

text \<open>
  C7, amended. A wheel step produces the field's number (1 where the field holds 0 or no
  number) plus or minus the step, 0.1 in coarse mode and 0.01 with the shift key; it stores
  that value rounded to one decimal in coarse mode and to two with the shift key, then
  clamped to \<open>[0.1, 10]\<close> (10 and 0.1 for a field holding plus or minus infinity), and
  commits once. A frame of a whisker drag on an existing handle and field whose edges are in
  order, \<open>0 < fLow < fHigh\<close>, returns and stores the Q of the band between the edges
  rounded to two decimals, then clamped to \<open>[0.1, 10]\<close>; any frame either leaves the state
  as it was or stores such a value. Rounding to \<open>n\<close> decimals gives a value within half a
  unit of the \<open>n\<close>-th decimal, and the stored values are multiples of the step between 0.1
  and 10.
\<close>

theorem q_stored_rounded_to_step:
  "(enabled s \<and> idx < length (fi_q (inputs s)) \<longrightarrow>
      (\<exists>q. wheel idx shiftKey deltaY s =
             Returns (s\<lparr>inputs := (inputs s)\<lparr>fi_q := (fi_q (inputs s))[idx := Fin q]\<rparr>,
                        applyEQ_calls := applyEQ_calls s + 1\<rparr>)
         \<and> (\<forall>a. fi_q (inputs s) ! idx = Fin a \<and> a \<noteq> 0 \<longrightarrow>
               q = clamp_q (round_to (if shiftKey then 2 else 1)
                      (a + (if deltaY < 0 then 1 else - 1) * (if shiftKey then 1/100 else 1/10))))
         \<and> (fi_q (inputs s) ! idx = NaN \<or> fi_q (inputs s) ! idx = Fin 0 \<longrightarrow>
               q = clamp_q (round_to (if shiftKey then 2 else 1)
                      (1 + (if deltaY < 0 then 1 else - 1) * (if shiftKey then 1/100 else 1/10))))
         \<and> (fi_q (inputs s) ! idx = PInf \<longrightarrow> q = 10)
         \<and> (fi_q (inputs s) ! idx = NInf \<longrightarrow> q = 1/10)
         \<and> (\<exists>k::int. q = of_int k / 10 ^ (if shiftKey then 2 else 1))
         \<and> 1/10 \<le> q \<and> q \<le> 10))
   \<and> (find (\<lambda>h. filterIndex h = key) (eqHandles s) = Some h \<and> key < length (fi_q (inputs s)) \<and>
       0 < fst (dragBand env h sd ev_x) \<and> fst (dragBand env h sd ev_x) < snd (dragBand env h sd ev_x)
       \<longrightarrow> returns (whiskerDrag env sd key ev_x s) \<and>
           fi_q (inputs (final (whiskerDrag env sd key ev_x s))) =
             (fi_q (inputs s))[key := Fin (clamp_q (round_to 2
                (bandQ (fst (dragBand env h sd ev_x)) (snd (dragBand env h sd ev_x)))))])
   \<and> (final (whiskerDrag env sd key ev_x s) = s \<or>
        (\<exists>g. find (\<lambda>h. filterIndex h = key) (eqHandles s) = Some g \<and>
           fi_q (inputs (final (whiskerDrag env sd key ev_x s))) =
             (fi_q (inputs s))[key := Fin (clamp_q (round_to 2
                (bandQ (fst (dragBand env g sd ev_x)) (snd (dragBand env g sd ev_x)))))]))
   \<and> (\<exists>k::int. clamp_q (round_to 2 x) = of_int k / 100)
   \<and> 1/10 \<le> clamp_q x \<and> clamp_q x \<le> 10
   \<and> \<bar>round_to n x - x\<bar> \<le> 1 / (2 * 10 ^ n)"
proof (intro conjI impI)
  assume a: "enabled s \<and> idx < length (fi_q (inputs s))"
  have n: "(if shiftKey then 2 else 1) = (1::nat) \<or> (if shiftKey then 2 else 1) = (2::nat)"
    by simp
  show "\<exists>q. wheel idx shiftKey deltaY s =
             Returns (s\<lparr>inputs := (inputs s)\<lparr>fi_q := (fi_q (inputs s))[idx := Fin q]\<rparr>,
                        applyEQ_calls := applyEQ_calls s + 1\<rparr>)
         \<and> (\<forall>a. fi_q (inputs s) ! idx = Fin a \<and> a \<noteq> 0 \<longrightarrow>
               q = clamp_q (round_to (if shiftKey then 2 else 1)
                      (a + (if deltaY < 0 then 1 else - 1) * (if shiftKey then 1/100 else 1/10))))
         \<and> (fi_q (inputs s) ! idx = NaN \<or> fi_q (inputs s) ! idx = Fin 0 \<longrightarrow>
               q = clamp_q (round_to (if shiftKey then 2 else 1)
                      (1 + (if deltaY < 0 then 1 else - 1) * (if shiftKey then 1/100 else 1/10))))
         \<and> (fi_q (inputs s) ! idx = PInf \<longrightarrow> q = 10)
         \<and> (fi_q (inputs s) ! idx = NInf \<longrightarrow> q = 1/10)
         \<and> (\<exists>k::int. q = of_int k / 10 ^ (if shiftKey then 2 else 1))
         \<and> 1/10 \<le> q \<and> q \<le> 10"
    using wheel_stored[OF n, of "fi_q (inputs s) ! idx"
            "(if deltaY < 0 then 1 else - 1) * (if shiftKey then 1/100 else 1/10)"]
    unfolding wheel_returns[OF a[THEN conjunct1] a[THEN conjunct2]]
    by (elim exE conjE, intro exI conjI) (simp_all only: )
next
  assume d: "find (\<lambda>h. filterIndex h = key) (eqHandles s) = Some h \<and> key < length (fi_q (inputs s)) \<and>
       0 < fst (dragBand env h sd ev_x) \<and> fst (dragBand env h sd ev_x) < snd (dragBand env h sd ev_x)"
  show "returns (whiskerDrag env sd key ev_x s)"
    using d whiskerDrag_writes(1) by blast
  show "fi_q (inputs (final (whiskerDrag env sd key ev_x s))) =
             (fi_q (inputs s))[key := Fin (clamp_q (round_to 2
                (bandQ (fst (dragBand env h sd ev_x)) (snd (dragBand env h sd ev_x)))))]"
    using d whiskerDrag_writes(2) by blast
next
  show "final (whiskerDrag env sd key ev_x s) = s \<or>
        (\<exists>g. find (\<lambda>h. filterIndex h = key) (eqHandles s) = Some g \<and>
           fi_q (inputs (final (whiskerDrag env sd key ev_x s))) =
             (fi_q (inputs s))[key := Fin (clamp_q (round_to 2
                (bandQ (fst (dragBand env g sd ev_x)) (snd (dragBand env g sd ev_x)))))])"
    by (rule whiskerDrag_stores)
next
  show "\<exists>k::int. clamp_q (round_to 2 x) = of_int k / 100"
    using clamp_q_grid[of 2 x] by simp
next
  show "1/10 \<le> clamp_q x" "clamp_q x \<le> 10"
    using clamp_q_bounds[of x] by simp_all
next
  show "\<bar>round_to n x - x\<bar> \<le> 1 / (2 * 10 ^ n)"
    by (rule round_to_close)
qed

text \<open>
  On the example: a coarse and a fine tick up from 1.234, a coarse tick down from a field
  that holds no number, a tick on a field holding an infinity, and the right whisker of the
  filter at 1000 Hz taken to 2000 Hz.
\<close>

theorem q_stored_rounded_to_step_witness:
  "wheel 0 False (- 1) (q_state (Fin (1234/1000))) =
     Returns ((q_state (Fin (1234/1000)))
                \<lparr>inputs := (inputs (q_state (Fin (1234/1000))))\<lparr>fi_q := [Fin (13/10)]\<rparr>,
                  applyEQ_calls := 1\<rparr>)
   \<and> wheel 0 True (- 1) (q_state (Fin (1234/1000))) =
     Returns ((q_state (Fin (1234/1000)))
                \<lparr>inputs := (inputs (q_state (Fin (1234/1000))))\<lparr>fi_q := [Fin (124/100)]\<rparr>,
                  applyEQ_calls := 1\<rparr>)
   \<and> wheel 0 False 1 (q_state NaN) =
     Returns ((q_state NaN)\<lparr>inputs := (inputs (q_state NaN))\<lparr>fi_q := [Fin (9/10)]\<rparr>,
                             applyEQ_calls := 1\<rparr>)
   \<and> wheel 0 True (- 1) (q_state PInf) =
     Returns ((q_state PInf)\<lparr>inputs := (inputs (q_state PInf))\<lparr>fi_q := [Fin 10]\<rparr>,
                              applyEQ_calls := 1\<rparr>)
   \<and> wheel 0 True 1 (q_state NInf) =
     Returns ((q_state NInf)\<lparr>inputs := (inputs (q_state NInf))\<lparr>fi_q := [Fin (1/10)]\<rparr>,
                              applyEQ_calls := 1\<rparr>)
   \<and> returns (whiskerDrag demo_env SideRight 0 1000 handle_state)
   \<and> fi_q (inputs (final (whiskerDrag demo_env SideRight 0 1000 handle_state))) = [Fin (67/100)]"
proof -
  have step: "\<exists>q. wheel 0 sh dy (q_state v) =
        Returns ((q_state v)\<lparr>inputs := (inputs (q_state v))\<lparr>fi_q := [Fin q]\<rparr>,
                              applyEQ_calls := 1\<rparr>)
      \<and> (\<forall>a. v = Fin a \<and> a \<noteq> 0 \<longrightarrow>
            q = clamp_q (round_to (if sh then 2 else 1)
                  (a + (if dy < 0 then 1 else - 1) * (if sh then 1/100 else 1/10))))
      \<and> (v = NaN \<or> v = Fin 0 \<longrightarrow>
            q = clamp_q (round_to (if sh then 2 else 1)
                  (1 + (if dy < 0 then 1 else - 1) * (if sh then 1/100 else 1/10))))
      \<and> (v = PInf \<longrightarrow> q = 10)
      \<and> (v = NInf \<longrightarrow> q = 1/10)" for sh dy v
  proof -
    have pre: "enabled (q_state v) \<and> 0 < length (fi_q (inputs (q_state v)))"
      by (simp add: q_state_fields)
    obtain q where q: "wheel 0 sh dy (q_state v) =
        Returns ((q_state v)\<lparr>inputs := (inputs (q_state v))\<lparr>fi_q :=
                    (fi_q (inputs (q_state v)))[0 := Fin q]\<rparr>,
                  applyEQ_calls := applyEQ_calls (q_state v) + 1\<rparr>)"
      "\<forall>a. fi_q (inputs (q_state v)) ! 0 = Fin a \<and> a \<noteq> 0 \<longrightarrow>
            q = clamp_q (round_to (if sh then 2 else 1)
                  (a + (if dy < 0 then 1 else - 1) * (if sh then 1/100 else 1/10)))"
      "fi_q (inputs (q_state v)) ! 0 = NaN \<or> fi_q (inputs (q_state v)) ! 0 = Fin 0 \<longrightarrow>
            q = clamp_q (round_to (if sh then 2 else 1)
                  (1 + (if dy < 0 then 1 else - 1) * (if sh then 1/100 else 1/10)))"
      "fi_q (inputs (q_state v)) ! 0 = PInf \<longrightarrow> q = 10"
      "fi_q (inputs (q_state v)) ! 0 = NInf \<longrightarrow> q = 1/10"
      using q_stored_rounded_to_step[where s = "q_state v" and idx = 0 and shiftKey = sh
        and deltaY = dy, THEN conjunct1, THEN mp, OF pre]
      by blast
    show ?thesis
      using q unfolding q_state_fields by (intro exI[of _ q]) simp
  qed
  have fin: "wheel 0 sh dy (q_state (Fin a)) =
        Returns ((q_state (Fin a))\<lparr>inputs := (inputs (q_state (Fin a)))\<lparr>fi_q :=
                    [Fin (clamp_q (round_to (if sh then 2 else 1)
                       (a + (if dy < 0 then 1 else - 1) * (if sh then 1/100 else 1/10))))]\<rparr>,
                  applyEQ_calls := 1\<rparr>)" if "a \<noteq> 0" for sh dy a
    using step[of sh dy "Fin a"] that by auto
  have c: "wheel 0 False (- 1) (q_state (Fin (1234/1000))) =
     Returns ((q_state (Fin (1234/1000)))
                \<lparr>inputs := (inputs (q_state (Fin (1234/1000))))\<lparr>fi_q := [Fin (13/10)]\<rparr>,
                  applyEQ_calls := 1\<rparr>)"
    using fin[of "1234/1000" False "- 1"]
    by (simp add: clamp_q_def round_to_def round_def)
  have f: "wheel 0 True (- 1) (q_state (Fin (1234/1000))) =
     Returns ((q_state (Fin (1234/1000)))
                \<lparr>inputs := (inputs (q_state (Fin (1234/1000))))\<lparr>fi_q := [Fin (124/100)]\<rparr>,
                  applyEQ_calls := 1\<rparr>)"
    using fin[of "1234/1000" True "- 1"]
    by (simp add: clamp_q_def round_to_def round_def)
  have n: "wheel 0 False 1 (q_state NaN) =
     Returns ((q_state NaN)\<lparr>inputs := (inputs (q_state NaN))\<lparr>fi_q := [Fin (9/10)]\<rparr>,
                             applyEQ_calls := 1\<rparr>)"
    using step[of False 1 NaN]
    by (auto simp: clamp_q_def round_to_def round_def)
  have p: "wheel 0 True (- 1) (q_state PInf) =
     Returns ((q_state PInf)\<lparr>inputs := (inputs (q_state PInf))\<lparr>fi_q := [Fin 10]\<rparr>,
                              applyEQ_calls := 1\<rparr>)"
    using step[of True "- 1" PInf] by auto
  have m: "wheel 0 True 1 (q_state NInf) =
     Returns ((q_state NInf)\<lparr>inputs := (inputs (q_state NInf))\<lparr>fi_q := [Fin (1/10)]\<rparr>,
                              applyEQ_calls := 1\<rparr>)"
    using step[of True 1 NInf] by auto
  have d: "returns (whiskerDrag demo_env SideRight 0 1000 handle_state)
     \<and> fi_q (inputs (final (whiskerDrag demo_env SideRight 0 1000 handle_state))) = [Fin (67/100)]"
    using q_stored_rounded_to_step[where s = handle_state and key = 0
      and h = "new_handle 0 demo_filter" and env = demo_env and sd = SideRight and ev_x = 1000,
      THEN conjunct2, THEN conjunct1]
    by (simp add: demo_handle demo_drag_band demo_band_q round_examples)
  show ?thesis using c f n p m d by simp
qed

section \<open>C8: enable/disable cycles do not accumulate listeners\<close>

text \<open>
  C8. A cycle is \<^verbatim>\<open>enable()\<close> followed by \<^verbatim>\<open>disable()\<close>. On an initialized module, after
  any number \<open>n \<ge> 1\<close> of cycles the listeners on the SVG element, on the document and on
  the interaction rectangle are exactly those after one cycle, and enabling after the cycles
  registers the same set of listeners as enabling at once. On a module that is not
  initialized, \<^verbatim>\<open>enable\<close> and \<^verbatim>\<open>disable\<close> change nothing.
\<close>

theorem enable_disable_cycles:
  "(initialized s \<and> 0 < n \<longrightarrow>
      listeners ((cycle env ^^ n) s) = listeners (cycle env s) \<and>
      listener_sets (final (enable env ((cycle env ^^ n) s))) = listener_sets (final (enable env s)))
   \<and> (\<not> initialized s \<longrightarrow> enable env s = Returns s \<and> disable s = s)"
proof (intro conjI impI)
  assume a: "initialized s \<and> 0 < n"
  then obtain m where n: "n = Suc m" by (cases n) auto
  have "listeners ((cycle env ^^ n) s) = unregistered (listeners s)"
    using a cycles_listeners[where s = s and env = env and n = m] by (simp add: n)
  then show "listener_sets (final (enable env ((cycle env ^^ n) s))) = listener_sets (final (enable env s))"
    using a by (intro enable_listener_sets) (simp_all add: cycles_initialized)
next
  assume a: "initialized s \<and> 0 < n"
  then obtain m where n: "n = Suc m" by (cases n) auto
  show "listeners ((cycle env ^^ n) s) = listeners (cycle env s)"
    using a cycles_listeners[where s = s and env = env and n = m] cycle_listeners[where s = s and env = env]
    by (simp add: n)
next
  assume "\<not> initialized s"
  then show "enable env s = Returns s" by (simp add: enable_def)
next
  assume "\<not> initialized s"
  then show "disable s = s" by (simp add: disable_def)
qed

theorem enable_disable_cycles_witness:
  "listeners ((cycle demo_env ^^ 3) idle_state) = listeners (cycle demo_env idle_state)
   \<and> listener_sets (final (enable demo_env ((cycle demo_env ^^ 3) idle_state)))
       = listener_sets (final (enable demo_env idle_state))
   \<and> enable demo_env (idle_state\<lparr>initialized := False\<rparr>) = Returns (idle_state\<lparr>initialized := False\<rparr>)
   \<and> disable (idle_state\<lparr>initialized := False\<rparr>) = idle_state\<lparr>initialized := False\<rparr>"
  using enable_disable_cycles[where s = idle_state and n = 3 and env = demo_env]
        enable_disable_cycles[where s = "idle_state\<lparr>initialized := False\<rparr>" and n = 3 and env = demo_env]
  by (simp add: idle_state_def)

section \<open>C9: a graph click reuses a free slot before adding a band\<close>

text \<open>
  C9. For a click that gets as far as creating a filter: if the host's filter list has an
  unassigned filter (frequency absent or 0), the first such slot receives the new filter
  (enabled, PK, the frequency, the gain, Q 1) and the band count stays; if it has none and
  the band count is below the maximum, the band count grows by exactly one and the slot with
  the old band count as index, the new last one, receives the filter; if it has none and the
  band count is at the maximum, nothing is written. (The slot must exist in the five input
  arrays: the host keeps one row of inputs per band.)
\<close>

theorem graph_click_reuses_slots:
  "creates env x y s curveY \<longrightarrow>
     (i < length (getFilters env (inputs s)) \<and>
      freq_unassigned (getFilters env (inputs s) ! i) \<and>
      (\<forall>j<i. \<not> freq_unassigned (getFilters env (inputs s) ! j)) \<and>
      has_slot i (inputs s) \<longrightarrow>
        inputs (final (handleGraphClick env x y s))
          = slotFilled i (fst (toDomain env (x, y)))
              (gainFor env (snd (toDomain env (x, y))) curveY) (inputs s) \<and>
        bands (final (handleGraphClick env x y s)) = bands s)
     \<and> ((\<forall>f\<in>set (getFilters env (inputs s)). \<not> freq_unassigned f) \<and>
          bands s < getBandsMax env \<and>
          has_slot (bands s) (updateFilterElements env (bands s + 1) (inputs s)) \<longrightarrow>
        inputs (final (handleGraphClick env x y s))
          = slotFilled (bands s) (fst (toDomain env (x, y)))
              (gainFor env (snd (toDomain env (x, y))) curveY)
              (updateFilterElements env (bands s + 1) (inputs s)) \<and>
        bands (final (handleGraphClick env x y s)) = bands s + 1)
     \<and> ((\<forall>f\<in>set (getFilters env (inputs s)). \<not> freq_unassigned f) \<and>
          \<not> bands s < getBandsMax env \<longrightarrow>
        inputs (final (handleGraphClick env x y s)) = inputs s \<and>
        bands (final (handleGraphClick env x y s)) = bands s)"
proof (intro impI conjI)
  let ?s1 = "selectFirstPhone env s"
  let ?f = "fst (toDomain env (x, y))"
  let ?g = "gainFor env (snd (toDomain env (x, y))) curveY"
  assume c: "creates env x y s curveY"
  note run = handleGraphClick_creates[OF c]
  {
    assume a: "i < length (getFilters env (inputs s)) \<and>
      freq_unassigned (getFilters env (inputs s) ! i) \<and>
      (\<forall>j<i. \<not> freq_unassigned (getFilters env (inputs s) ! j)) \<and>
      has_slot i (inputs s)"
    have pick: "pickSlot env ?s1 = Some (i, ?s1)"
      using a by (intro pickSlot_first) (simp_all add: selectFirstPhone_fields)
    have fill: "fillSlot i ?f ?g ?s1 =
        Returns (?s1\<lparr>inputs := slotFilled i ?f ?g (inputs s), applyEQ_calls := applyEQ_calls s + 1\<rparr>)"
      using a fillSlot_has_slot[of i ?s1 ?f ?g] by (simp add: selectFirstPhone_fields)
    show "inputs (final (handleGraphClick env x y s)) = slotFilled i ?f ?g (inputs s)"
      using pick fill by (simp add: run updateEQHandles_inputs)
    show "bands (final (handleGraphClick env x y s)) = bands s"
      using pick fill by (simp add: run updateEQHandles_bands selectFirstPhone_fields)
  }
  {
    assume b: "(\<forall>f\<in>set (getFilters env (inputs s)). \<not> freq_unassigned f) \<and>
          bands s < getBandsMax env \<and>
          has_slot (bands s) (updateFilterElements env (bands s + 1) (inputs s))"
    let ?s2 = "?s1\<lparr>bands := bands s + 1,
                     inputs := updateFilterElements env (bands s + 1) (inputs s)\<rparr>"
    have pick: "pickSlot env ?s1 = Some (bands s, ?s2)"
      using b pickSlot_grow[of env ?s1] by (simp add: selectFirstPhone_fields)
    have fill: "fillSlot (bands s) ?f ?g ?s2 =
        Returns (?s2\<lparr>inputs := slotFilled (bands s) ?f ?g
                                  (updateFilterElements env (bands s + 1) (inputs s)),
                      applyEQ_calls := applyEQ_calls s + 1\<rparr>)"
      using b fillSlot_has_slot[of "bands s" ?s2 ?f ?g] by (simp add: selectFirstPhone_fields)
    show "inputs (final (handleGraphClick env x y s))
          = slotFilled (bands s) ?f ?g (updateFilterElements env (bands s + 1) (inputs s))"
      using pick fill by (simp add: run updateEQHandles_inputs)
    show "bands (final (handleGraphClick env x y s)) = bands s + 1"
      using pick fill by (simp add: run updateEQHandles_bands)
  }
  {
    assume d: "(\<forall>f\<in>set (getFilters env (inputs s)). \<not> freq_unassigned f) \<and>
          \<not> bands s < getBandsMax env"
    have pick: "pickSlot env ?s1 = None"
      using d pickSlot_grow[of env ?s1] by (simp add: selectFirstPhone_fields)
    show "inputs (final (handleGraphClick env x y s)) = inputs s"
      using pick by (simp add: run selectFirstPhone_fields)
    show "bands (final (handleGraphClick env x y s)) = bands s"
      using pick by (simp add: run selectFirstPhone_fields)
  }
qed

theorem graph_click_reuses_slots_witness:
  "inputs (final (handleGraphClick (demo_env\<lparr>getBandsMax := 10\<rparr>) 500 2 two_row_state))
     = \<lparr>fi_enabled = [True, True], fi_type = [''PK'', ''PK''], fi_freq = [Fin 1000, Fin 500],
        fi_gain = [Fin 0, Fin 2], fi_q = [Fin 1, Fin 1]\<rparr>
   \<and> bands (final (handleGraphClick (demo_env\<lparr>getBandsMax := 10\<rparr>) 500 2 two_row_state)) = 2
   \<and> inputs (final (handleGraphClick (demo_env\<lparr>getBandsMax := 10\<rparr>) 500 2 idle_state))
     = \<lparr>fi_enabled = [True, True], fi_type = [''PK'', ''PK''], fi_freq = [Fin 1000, Fin 500],
        fi_gain = [Fin 0, Fin 2], fi_q = [Fin 1, Fin 1]\<rparr>
   \<and> bands (final (handleGraphClick (demo_env\<lparr>getBandsMax := 10\<rparr>) 500 2 idle_state)) = 2
   \<and> inputs (final (handleGraphClick (demo_env\<lparr>getBandsMax := 1\<rparr>) 500 2 idle_state))
     = inputs idle_state
   \<and> bands (final (handleGraphClick (demo_env\<lparr>getBandsMax := 1\<rparr>) 500 2 idle_state)) = 1"
proof -
  have c2: "creates (demo_env\<lparr>getBandsMax := m\<rparr>) 500 2 two_row_state None" for m
    by (rule creates_demo) (simp_all add: two_row_state_def idle_state_def)
  have c1: "creates (demo_env\<lparr>getBandsMax := m\<rparr>) 500 2 idle_state None" for m
    by (rule creates_demo) (simp_all add: idle_state_def)
  have slot2: "has_slot 1 (inputs two_row_state)"
    by (simp add: has_slot_def two_row_state_def idle_state_def)
  have slot1: "has_slot 1 \<lparr>fi_enabled = [True, True], fi_type = [''PK'', ''PK''],
      fi_freq = [Fin 1000, Fin 0], fi_gain = [Fin 0, Fin 0], fi_q = [Fin 1, Fin 1]\<rparr>"
    by (simp add: has_slot_def)
  have b1: "bands idle_state = 1" "bands two_row_state = 2"
    by (simp_all add: two_row_state_def idle_state_def)
  have max: "getBandsMax (demo_env\<lparr>getBandsMax := m\<rparr>) = m" for m
    by simp
  have in2: "inputs two_row_state = \<lparr>fi_enabled = [True, True], fi_type = [''PK'', ''PK''],
      fi_freq = [Fin 1000, Fin 0], fi_gain = [Fin 0, Fin 0], fi_q = [Fin 1, Fin 1]\<rparr>"
    by (simp add: two_row_state_def idle_state_def)
  show ?thesis
    using graph_click_reuses_slots
            [where env = "demo_env\<lparr>getBandsMax := 10\<rparr>" and x = 500 and y = 2
               and s = two_row_state and curveY = None and i = 1]
          graph_click_reuses_slots
            [where env = "demo_env\<lparr>getBandsMax := 10\<rparr>" and x = 500 and y = 2
               and s = idle_state and curveY = None and i = 0]
          graph_click_reuses_slots
            [where env = "demo_env\<lparr>getBandsMax := 1\<rparr>" and x = 500 and y = 2
               and s = idle_state and curveY = None and i = 0]
    unfolding two_row_filters idle_filters idle_resized demo_click_values max
    using c1 c2 slot1 slot2
    by (simp add: b1 freq_unassigned_def slotFilled_def in2)
qed

section \<open>C10: cycling the filter type\<close>

lemma next_type_cases:
  "types ! nat ((indexOf types v + 1) mod 3) =
     (if v = ''PK'' then ''LSQ'' else if v = ''LSQ'' then ''HSQ'' else ''PK'')"
  by (simp add: indexOf_def types_def)

text \<open>
  C10. With the module enabled and the filter's type field present, \<^verbatim>\<open>cycleFilterType\<close>
  returns for every stored type value: it writes the successor in the cycle PK, LSQ, HSQ, PK,
  and PK for any other value, and calls \<^verbatim>\<open>applyEQ\<close> once; so the stored type is one of
  the three afterwards. (The handler is bound to handles, which exist only while the module
  is enabled; disabled, the function returns at once.)
\<close>

theorem cycleFilterType_total:
  assumes "enabled s" and "idx < length (fi_type (inputs s))"
  shows "cycleFilterType idx s =
           Returns (s\<lparr>inputs := (inputs s)\<lparr>fi_type := (fi_type (inputs s))
                        [idx := (if fi_type (inputs s) ! idx = ''PK'' then ''LSQ''
                                 else if fi_type (inputs s) ! idx = ''LSQ'' then ''HSQ''
                                 else ''PK'')]\<rparr>,
                      applyEQ_calls := applyEQ_calls s + 1\<rparr>)
         \<and> fi_type (inputs (final (cycleFilterType idx s))) ! idx \<in> {''PK'', ''LSQ'', ''HSQ''}"
proof -
  have nth: "js_nth (fi_type (inputs s)) (int idx) = Some (fi_type (inputs s) ! idx)"
    using assms(2) by (simp add: js_nth_def)
  have eq: "cycleFilterType idx s =
           Returns (s\<lparr>inputs := (inputs s)\<lparr>fi_type := (fi_type (inputs s))
                        [idx := (if fi_type (inputs s) ! idx = ''PK'' then ''LSQ''
                                 else if fi_type (inputs s) ! idx = ''LSQ'' then ''HSQ''
                                 else ''PK'')]\<rparr>,
                      applyEQ_calls := applyEQ_calls s + 1\<rparr>)"
    using assms(1) by (simp add: cycleFilterType_def nth Let_def next_type_cases)
  show ?thesis
    using assms(2) by (simp add: eq)
qed

theorem cycleFilterType_total_witness:
  "fi_type (inputs (final (cycleFilterType 0
      (idle_state\<lparr>inputs := (inputs idle_state)\<lparr>fi_type := [''XX'']\<rparr>\<rparr>)))) = [''PK'']"
  using cycleFilterType_total
          [of "idle_state\<lparr>inputs := (inputs idle_state)\<lparr>fi_type := [''XX'']\<rparr>\<rparr>" 0]
  by (simp add: idle_state_def)

end
